theory Spec2Isabelle
  imports Main
begin

section \<open>The gitleaks-action controller (src/index.js)\<close>

text \<open>
  The controller is a script: module-level statements read the environment and the event
  payload, ask the identity service for the repository owner's account type, and the
  callbacks of that request enforce the license gate and call \<open>start\<close>, which installs
  the engine, runs the scan, writes the summary and interprets the exit code.

  Everything outside \<open>index.js\<close> is a collaborator whose behaviour is an input of the
  model: the environment, the event payload, and what each call does when it is made.
  A run of the script is the list of the calls and log entries it makes, in order, and the
  way it ends.
\<close>

subsection \<open>JavaScript values and comparisons used by the script\<close>

text \<open>
  A JavaScript string is a \<^typ>\<open>string\<close>; its characters are the code points below 256
  (so of the white space of ECMA-262 only tab, line feed, vertical tab, form feed,
  carriage return, space and no-break space occur).
  An environment variable is \<open>None\<close> when unset (\<open>undefined\<close>) and \<open>Some s\<close> otherwise.
\<close>

type_synonym js_error = string

text \<open>\<open>!x\<close> and \<open>x || y\<close> on such a value: \<open>undefined\<close> and the empty string are falsy.\<close>

definition truthy :: "string option \<Rightarrow> bool" where
  "truthy v = (case v of None \<Rightarrow> False | Some s \<Rightarrow> s \<noteq> [])"

text \<open>
  \<open>x == "false"\<close>: loose equality of two strings is equality; \<open>undefined\<close> equals no string.
\<close>

definition loose_eq_string :: "string option \<Rightarrow> string \<Rightarrow> bool" where
  "loose_eq_string v lit = (case v of None \<Rightarrow> False | Some s \<Rightarrow> s = lit)"

text \<open>
  \<open>x == 0\<close>: a string is converted with \<open>StringToNumber\<close> and the numbers are compared;
  \<open>undefined\<close> equals no number. The conversion follows the grammar
  \<open>StringNumericLiteral\<close> of ECMA-262: optional white space around either nothing (value
  \<open>0\<close>), a decimal literal with optional sign, fraction and exponent, \<open>Infinity\<close> with
  optional sign, or an unsigned binary, octal or hexadecimal integer literal. Anything
  else is \<open>NaN\<close>. A literal is kept as sign, decimal mantissa and power of ten.
\<close>

datatype numeric = NaN | Infinity bool | Decimal bool nat int

definition is_StrWhiteSpaceChar :: "char \<Rightarrow> bool" where
  "is_StrWhiteSpaceChar c =
     (c = CHR 0x09 \<or> c = CHR 0x0A \<or> c = CHR 0x0B \<or> c = CHR 0x0C \<or> c = CHR 0x0D
      \<or> c = CHR 0x20 \<or> c = CHR 0xA0)"

definition trim :: "string \<Rightarrow> string" where
  "trim s = rev (dropWhile is_StrWhiteSpaceChar (rev (dropWhile is_StrWhiteSpaceChar s)))"

definition digit_value :: "nat \<Rightarrow> char \<Rightarrow> nat option" where
  "digit_value base c =
     (let n = (of_char c :: nat);
          d = (if 48 \<le> n \<and> n \<le> 57 then Some (n - 48)
               else if 97 \<le> n \<and> n \<le> 102 then Some (n - 87)
               else if 65 \<le> n \<and> n \<le> 70 then Some (n - 55)
               else None)
      in case d of None \<Rightarrow> None | Some k \<Rightarrow> if k < base then Some k else None)"

definition is_digit :: "nat \<Rightarrow> char \<Rightarrow> bool" where
  "is_digit base c = (digit_value base c \<noteq> None)"

definition digits_value :: "nat \<Rightarrow> string \<Rightarrow> nat" where
  "digits_value base ds = foldl (\<lambda>acc c. acc * base + the (digit_value base c)) 0 ds"

text \<open>\<open>SignedInteger\<close>: the digits after the exponent indicator, with an optional sign.\<close>

definition SignedInteger :: "string \<Rightarrow> int option" where
  "SignedInteger s =
     (let (neg, ds) = (case s of
                         c # t \<Rightarrow> if c = CHR ''-'' then (True, t)
                                  else if c = CHR ''+'' then (False, t) else (False, s)
                       | [] \<Rightarrow> (False, s))
      in if ds \<noteq> [] \<and> list_all (is_digit 10) ds
         then Some (if neg then - int (digits_value 10 ds) else int (digits_value 10 ds))
         else None)"

definition ExponentPart_opt :: "string \<Rightarrow> int option" where
  "ExponentPart_opt s =
     (case s of
        [] \<Rightarrow> Some 0
      | c # t \<Rightarrow> if c = CHR ''e'' \<or> c = CHR ''E'' then SignedInteger t else None)"

definition StrUnsignedDecimalLiteral :: "bool \<Rightarrow> string \<Rightarrow> numeric" where
  "StrUnsignedDecimalLiteral neg s =
     (if s = ''Infinity'' then Infinity neg
      else
        let ip = takeWhile (is_digit 10) s;
            r1 = dropWhile (is_digit 10) s;
            (fp, r2) = (case r1 of
                          c # t \<Rightarrow> if c = CHR ''.''
                                   then (takeWhile (is_digit 10) t, dropWhile (is_digit 10) t)
                                   else ([], r1)
                        | [] \<Rightarrow> ([], r1))
        in if ip = [] \<and> fp = [] then NaN
           else case ExponentPart_opt r2 of
                  None \<Rightarrow> NaN
                | Some e \<Rightarrow> Decimal neg (digits_value 10 (ip @ fp)) (e - int (length fp)))"

definition NonDecimalIntegerLiteral :: "string \<Rightarrow> numeric option" where
  "NonDecimalIntegerLiteral s =
     (case s of
        z # x # ds \<Rightarrow>
          (let base = (if x = CHR ''b'' \<or> x = CHR ''B'' then 2
                       else if x = CHR ''o'' \<or> x = CHR ''O'' then 8
                       else if x = CHR ''x'' \<or> x = CHR ''X'' then 16 else (0::nat))
           in if z = CHR ''0'' \<and> base \<noteq> 0
              then (if ds \<noteq> [] \<and> list_all (is_digit base) ds
                    then Some (Decimal False (digits_value base ds) 0) else Some NaN)
              else None)
      | _ \<Rightarrow> None)"

definition StringToNumber :: "string \<Rightarrow> numeric" where
  "StringToNumber str =
     (let s = trim str
      in if s = [] then Decimal False 0 0
         else case NonDecimalIntegerLiteral s of
                Some v \<Rightarrow> v
              | None \<Rightarrow>
                  (case s of
                     c # t \<Rightarrow> if c = CHR ''-'' then StrUnsignedDecimalLiteral True t
                              else if c = CHR ''+'' then StrUnsignedDecimalLiteral False t
                              else StrUnsignedDecimalLiteral False s
                   | [] \<Rightarrow> NaN))"

text \<open>
  The Number value of a literal is zero when its mantissa is zero, and also when its
  magnitude \<open>m \<times> 10\<^sup>e\<close> is at most \<open>2\<^sup>-\<^sup>1\<^sup>0\<^sup>7\<^sup>5\<close>, half the least positive double, which
  rounds to zero. \<open>+0\<close> and \<open>-0\<close> are equal.
\<close>

definition is_zero :: "numeric \<Rightarrow> bool" where
  "is_zero v =
     (case v of
        NaN \<Rightarrow> False
      | Infinity _ \<Rightarrow> False
      | Decimal _ m e \<Rightarrow> m = 0 \<or> (e < 0 \<and> int m * 2 ^ 1075 \<le> 10 ^ nat (- e)))"

definition loose_eq_zero :: "string option \<Rightarrow> bool" where
  "loose_eq_zero v = (case v of None \<Rightarrow> False | Some s \<Rightarrow> is_zero (StringToNumber s))"

subsection \<open>The environment, the event payload and the collaborators\<close>

text \<open>
  The fields of the event payload that the script reads: \<open>eventJSON.repository.owner.login\<close>,
  \<open>eventJSON.after\<close> and \<open>eventJSON.before\<close> (absent in payloads that have no commit
  range). The payload is also handed whole to the license validator, to the pull-request
  scan and to the summary writer. The model begins where the payload file has been read
  and parsed and names a repository owner; without that the script throws at line 32 or
  40, before it logs or calls anything but the flag entries.
\<close>

record event_payload =
  repository_owner_login :: string
  after :: "string option"
  before :: "string option"

record scanInfo =
  headRef :: "string option"
  baseRef :: "string option"
  gitleaksPath :: string

text \<open>
  An awaited call of a module of this repository returns a value, throws (its promise is
  rejected), or ends the process itself with \<open>process.exit\<close>. The request to the identity
  service is a promise of the REST client: resolved with the response, whose
  \<open>data.type\<close> is a string or absent, or rejected. A call that never settles is not
  modelled.

  The record \<open>world\<close> holds everything the script depends on: \<open>process.env\<close>, the parsed
  payload, what each collaborator does when called with given arguments, and the constant
  \<open>gitleaks.EXIT_CODE_LEAKS_DETECTED\<close>, which is defined in \<open>gitleaks.js\<close> and is an input
  here.
\<close>

datatype 'a outcome = Returns 'a | Throws js_error | Exits int

datatype 'a promise = Resolved 'a | Rejected js_error

record world =
  env :: "string \<Rightarrow> string option"
  eventJSON :: event_payload
  octokit_request :: "string \<Rightarrow> string option promise"
  keygen_ValidateKey :: "event_payload \<Rightarrow> unit outcome"
  gitleaks_Latest :: "string outcome"
  gitleaks_Install :: "string \<Rightarrow> string outcome"
  gitleaks_Scan :: "bool \<Rightarrow> scanInfo \<Rightarrow> string \<Rightarrow> int outcome"
  gitleaks_ScanPullRequest :: "bool \<Rightarrow> event_payload \<Rightarrow> string \<Rightarrow> int outcome"
  summary_Write :: "int \<Rightarrow> event_payload \<Rightarrow> unit outcome"
  EXIT_CODE_LEAKS_DETECTED :: int

subsection \<open>What a run does: log entries, calls, and how it ends\<close>

text \<open>
  The messages of the script, with the values interpolated into them:
  \<^item> \<open>DisablingSummary\<close>: "Disabling GitHub Actions Summary."
  \<^item> \<open>DisablingUploadArtifact\<close>: "Disabling uploading of results.sarif artifact."
  \<^item> \<open>IsOrganization u\<close>: "[u] is an organization. License key is required."
  \<^item> \<open>IsIndividual u\<close>: "[u] is an individual user. No license key is required."
  \<^item> \<open>UnexpectedType u t\<close>: "[u] is an unexpected type [t]. License key validation will
    be enforced"
  \<^item> \<open>GetUserReturned t\<close>: "GitHub GET user API returned [...]", the response printed
  \<^item> \<open>GetUserFailed u err\<close>: "Get user [u] failed with error [err]. License key validation
    will be enforced"
  \<^item> \<open>MissingLicense\<close>: "missing gitleaks license. Go grab one at gitleaks.io and store
    it as a GitHub Secret named GITLEAKS_LICENSE. ..."
  \<^item> \<open>EventNotSupported e\<close>: "ERROR: The [e] event is not yet supported"
  \<^item> \<open>GitleaksVersion v\<close>: "gitleaks version: v"
  \<^item> \<open>EventTypeIs e\<close>: "event type: e"
  \<^item> \<open>NoLeaksDetected\<close>: "No leaks detected"
  \<^item> \<open>LeaksDetected\<close>: "Leaks detected, see job summary for details"
  \<^item> \<open>UnexpectedExitCode c\<close>: "ERROR: Unexpected exit code [c]"
\<close>

datatype message =
    DisablingSummary
  | DisablingUploadArtifact
  | IsOrganization string
  | IsIndividual string
  | UnexpectedType string "string option"
  | GetUserReturned "string option"
  | GetUserFailed string js_error
  | MissingLicense
  | EventNotSupported "string option"
  | GitleaksVersion string
  | EventTypeIs "string option"
  | NoLeaksDetected
  | LeaksDetected
  | UnexpectedExitCode int

datatype level = core_debug | core_info | core_warning | core_error

text \<open>
  The calls the script makes, with their arguments. The REST client that
  \<open>gitleaks.Latest\<close> and \<open>gitleaks.ScanPullRequest\<close> also receive is the one object
  built at startup and is left out.
\<close>

datatype call =
    OctokitGetUser string
  | KeygenValidateKey event_payload
  | GitleaksLatest
  | GitleaksInstall string
  | GitleaksScan bool scanInfo string
  | GitleaksScanPullRequest bool event_payload string
  | SummaryWrite int event_payload

datatype event = Log level message | Call call

text \<open>
  A run ends with \<open>process.exit(n)\<close>, or because \<open>start\<close> returned and nothing is left to
  do (the runtime then exits with status 0), or with the promise of \<open>start\<close> rejected
  and nobody handling the rejection.
\<close>

datatype ending = Exit int | Finished | Uncaught js_error

datatype 'a step = Value 'a | Stop ending

type_synonym 'a proc = "event list \<times> 'a step"

definition ret :: "'a \<Rightarrow> 'a proc" where
  "ret v = ([], Value v)"

definition log :: "level \<Rightarrow> message \<Rightarrow> unit proc" where
  "log l m = ([Log l m], Value ())"

definition process_exit :: "int \<Rightarrow> 'a proc" where
  "process_exit n = ([], Stop (Exit n))"

text \<open>\<open>await f(args)\<close> inside \<open>start\<close>, which has no \<open>try\<close>: a throw rejects \<open>start\<close>.\<close>

definition await :: "call \<Rightarrow> 'a outcome \<Rightarrow> 'a proc" where
  "await c r =
     ([Call c], case r of Returns v \<Rightarrow> Value v
                        | Throws err \<Rightarrow> Stop (Uncaught err)
                        | Exits n \<Rightarrow> Stop (Exit n))"

text \<open>Sequencing: the second statement runs if the first one did not end the run.\<close>

definition and_then :: "'a proc \<Rightarrow> ('a \<Rightarrow> 'b proc) \<Rightarrow> 'b proc" where
  "and_then p f =
     (case snd p of
        Stop s \<Rightarrow> (fst p, Stop s)
      | Value v \<Rightarrow> (fst p @ fst (f v), snd (f v)))"

definition ending_of :: "unit proc \<Rightarrow> ending" where
  "ending_of p = (case snd p of Stop s \<Rightarrow> s | Value _ \<Rightarrow> Finished)"

text \<open>
  The exit code the script asks for: the argument of \<open>process.exit\<close>, or \<open>0\<close> when it
  finishes without calling it. After an unhandled rejection the exit status is the
  runtime's choice and not the script's.
\<close>

definition exit_status :: "ending \<Rightarrow> int option" where
  "exit_status s = (case s of Exit n \<Rightarrow> Some n | Finished \<Rightarrow> Some 0 | Uncaught _ \<Rightarrow> None)"

subsection \<open>Module level: feature flags, event type, owner\<close>

text \<open>
  Lines 13 to 29. Each flag starts as \<open>true\<close> and is set to \<open>false\<close>, with a debug entry,
  when its variable is loosely equal to \<open>"false"\<close> or to \<open>0\<close>. They are module-level
  variables that nothing assigns again, so they are functions of the environment.
\<close>

definition gitleaksEnableSummary :: "world \<Rightarrow> bool" where
  "gitleaksEnableSummary w =
     (if loose_eq_string (env w ''GITLEAKS_ENABLE_SUMMARY'') ''false''
         \<or> loose_eq_zero (env w ''GITLEAKS_ENABLE_SUMMARY'')
      then False else True)"

definition gitleaksEnableUploadArtifact :: "world \<Rightarrow> bool" where
  "gitleaksEnableUploadArtifact w =
     (if loose_eq_string (env w ''GITLEAKS_ENABLE_UPLOAD_ARTIFACT'') ''false''
         \<or> loose_eq_zero (env w ''GITLEAKS_ENABLE_UPLOAD_ARTIFACT'')
      then False else True)"

text \<open>The debug entries written where the flags are switched off.\<close>

definition startup :: "world \<Rightarrow> unit proc" where
  "startup w =
     and_then (if gitleaksEnableSummary w then ret () else log core_debug DisablingSummary) (\<lambda>_.
               if gitleaksEnableUploadArtifact w then ret ()
               else log core_debug DisablingUploadArtifact)"

definition eventType :: "world \<Rightarrow> string option" where
  "eventType w = env w ''GITHUB_EVENT_NAME''"

definition githubUsername :: "world \<Rightarrow> string" where
  "githubUsername w = repository_owner_login (eventJSON w)"

subsection \<open>Outcome interpretation (lines 154 to 162)\<close>

definition interpret_exitCode :: "world \<Rightarrow> int \<Rightarrow> unit proc" where
  "interpret_exitCode w exitCode =
     (if exitCode = 0 then log core_info NoLeaksDetected
      else if exitCode = EXIT_CODE_LEAKS_DETECTED w
      then and_then (log core_warning LeaksDetected) (\<lambda>_. process_exit 1)
      else and_then (log core_error (UnexpectedExitCode exitCode)) (\<lambda>_. process_exit exitCode))"

subsection \<open>\<open>start\<close> (lines 96 to 163)\<close>

definition supportedEvents :: "string list" where
  "supportedEvents = [''push'', ''pull_request'', ''workflow_dispatch'']"

definition Array_includes :: "string list \<Rightarrow> string option \<Rightarrow> bool" where
  "Array_includes xs v = (case v of None \<Rightarrow> False | Some s \<Rightarrow> s \<in> set xs)"

text \<open>
  Lines 126 to 147: the scan that the event type selects. \<open>exitCode\<close> keeps its initial
  value \<open>0\<close> when no branch applies.
\<close>

definition scan :: "world \<Rightarrow> scanInfo \<Rightarrow> int proc" where
  "scan w info =
     (case eventType w of
        None \<Rightarrow> ret 0
      | Some t \<Rightarrow>
          if t = ''push''
          then await (GitleaksScan (gitleaksEnableUploadArtifact w) info t)
                     (gitleaks_Scan w (gitleaksEnableUploadArtifact w) info t)
          else if t = ''workflow_dispatch''
          then await (GitleaksScan (gitleaksEnableUploadArtifact w) info t)
                     (gitleaks_Scan w (gitleaksEnableUploadArtifact w) info t)
          else if t = ''pull_request''
          then await (GitleaksScanPullRequest (gitleaksEnableUploadArtifact w) (eventJSON w) t)
                     (gitleaks_ScanPullRequest w (gitleaksEnableUploadArtifact w) (eventJSON w) t)
          else ret 0)"

text \<open>Lines 113 to 117: \<open>process.env.GITLEAKS_VERSION || (await gitleaks.Latest(octokit))\<close>.\<close>

definition gitleaksVersion :: "world \<Rightarrow> string proc" where
  "gitleaksVersion w =
     (case env w ''GITLEAKS_VERSION'' of
        None \<Rightarrow> await GitleaksLatest (gitleaks_Latest w)
      | Some v \<Rightarrow> if v \<noteq> [] then ret v else await GitleaksLatest (gitleaks_Latest w))"

definition start :: "world \<Rightarrow> bool \<Rightarrow> unit proc" where
  "start w shouldValidate =
     and_then (if \<not> Array_includes supportedEvents (eventType w)
               then and_then (log core_error (EventNotSupported (eventType w)))
                             (\<lambda>_. process_exit 1)
               else ret ()) (\<lambda>_.
     and_then (if shouldValidate
               then await (KeygenValidateKey (eventJSON w)) (keygen_ValidateKey w (eventJSON w))
               else ret ()) (\<lambda>_.
     and_then (gitleaksVersion w) (\<lambda>version.
     and_then (log core_info (GitleaksVersion version)) (\<lambda>_.
     and_then (await (GitleaksInstall version) (gitleaks_Install w version)) (\<lambda>path.
     and_then (log core_info (EventTypeIs (eventType w))) (\<lambda>_.
     and_then (scan w \<lparr>headRef = after (eventJSON w), baseRef = before (eventJSON w),
                       gitleaksPath = path\<rparr>) (\<lambda>exitCode.
     and_then (if gitleaksEnableSummary w
               then await (SummaryWrite exitCode (eventJSON w))
                          (summary_Write w exitCode (eventJSON w))
               else ret ()) (\<lambda>_.
     interpret_exitCode w exitCode))))))))"

subsection \<open>The identity lookup and its callbacks (lines 47 to 92)\<close>

text \<open>
  \<open>shouldValidate\<close> starts as \<open>true\<close>; each callback returns the value it leaves in it.
\<close>

definition then_callback :: "world \<Rightarrow> string option \<Rightarrow> bool proc" where
  "then_callback w githubUserType =
     (if githubUserType = Some ''Organization''
      then and_then (log core_info (IsOrganization (githubUsername w))) (\<lambda>_. ret True)
      else if githubUserType = Some ''User''
      then and_then (log core_info (IsIndividual (githubUsername w))) (\<lambda>_. ret False)
      else and_then (log core_warning (UnexpectedType (githubUsername w) githubUserType)) (\<lambda>_.
           and_then (log core_debug (GetUserReturned githubUserType)) (\<lambda>_. ret True)))"

definition catch_callback :: "world \<Rightarrow> js_error \<Rightarrow> bool proc" where
  "catch_callback w err =
     and_then (log core_warning (GetUserFailed (githubUsername w) err)) (\<lambda>_. ret True)"

definition get_user :: "world \<Rightarrow> bool proc" where
  "get_user w =
     and_then ([Call (OctokitGetUser (githubUsername w))], Value ()) (\<lambda>_.
       case octokit_request w (githubUsername w) of
         Resolved githubUserType \<Rightarrow> then_callback w githubUserType
       | Rejected err \<Rightarrow> catch_callback w err)"

definition finally_callback :: "world \<Rightarrow> bool \<Rightarrow> unit proc" where
  "finally_callback w shouldValidate =
     and_then (if shouldValidate \<and> \<not> truthy (env w ''GITLEAKS_LICENSE'')
               then and_then (log core_error MissingLicense) (\<lambda>_. process_exit 1)
               else ret ()) (\<lambda>_.
     start w shouldValidate)"

subsection \<open>The whole script\<close>

definition main :: "world \<Rightarrow> unit proc" where
  "main w =
     and_then (startup w) (\<lambda>_.
     and_then (get_user w) (\<lambda>shouldValidate.
     finally_callback w shouldValidate))"

definition trace :: "world \<Rightarrow> event list" where
  "trace w = fst (main w)"

definition ending :: "world \<Rightarrow> ending" where
  "ending w = ending_of (main w)"

subsection \<open>Observations on a run\<close>

definition calls :: "event list \<Rightarrow> call list" where
  "calls t = concat (map (\<lambda>e. case e of Call c \<Rightarrow> [c] | Log _ _ \<Rightarrow> []) t)"

definition is_scan :: "call \<Rightarrow> bool" where
  "is_scan c = (case c of GitleaksScan _ _ _ \<Rightarrow> True
                        | GitleaksScanPullRequest _ _ _ \<Rightarrow> True
                        | _ \<Rightarrow> False)"

definition is_report :: "call \<Rightarrow> bool" where
  "is_report c = (case c of SummaryWrite _ _ \<Rightarrow> True | _ \<Rightarrow> False)"

definition scan_calls :: "world \<Rightarrow> call list" where
  "scan_calls w = filter is_scan (calls (trace w))"

definition reports :: "world \<Rightarrow> call list" where
  "reports w = filter is_report (calls (trace w))"

text \<open>What the scan executor does when the run makes the call \<open>c\<close>.\<close>

definition scan_outcome :: "world \<Rightarrow> call \<Rightarrow> int outcome option" where
  "scan_outcome w c =
     (case c of
        GitleaksScan u i t \<Rightarrow> Some (gitleaks_Scan w u i t)
      | GitleaksScanPullRequest u j t \<Rightarrow> Some (gitleaks_ScanPullRequest w u j t)
      | _ \<Rightarrow> None)"

subsection \<open>The three blocks of \<open>start\<close> after license validation\<close>

text \<open>
  The body of \<open>start\<close> from a given line to its end, as a function of the variables that
  are live there: from line 149 (\<open>exitCode\<close>), from line 119 (\<open>gitleaksPath\<close>) and from
  line 113. Lemma \<open>start_blocks\<close> below shows that \<open>start\<close> is their composition.
\<close>

definition report_and_interpret :: "world \<Rightarrow> int \<Rightarrow> unit proc" where
  "report_and_interpret w =
     (\<lambda>exitCode.
        and_then (if gitleaksEnableSummary w
                  then await (SummaryWrite exitCode (eventJSON w))
                             (summary_Write w exitCode (eventJSON w))
                  else ret ()) (\<lambda>_.
        interpret_exitCode w exitCode))"

definition scan_and_report :: "world \<Rightarrow> string \<Rightarrow> unit proc" where
  "scan_and_report w =
     (\<lambda>path.
        and_then (log core_info (EventTypeIs (eventType w))) (\<lambda>_.
        and_then (scan w \<lparr>headRef = after (eventJSON w), baseRef = before (eventJSON w),
                          gitleaksPath = path\<rparr>)
                 (report_and_interpret w)))"

definition install_and_scan :: "world \<Rightarrow> unit proc" where
  "install_and_scan w =
     and_then (gitleaksVersion w) (\<lambda>version.
     and_then (log core_info (GitleaksVersion version)) (\<lambda>_.
     and_then (await (GitleaksInstall version) (gitleaks_Install w version))
              (scan_and_report w)))"

text \<open>A stretch of a run in which neither the scan executor nor the summary writer is called.\<close>

definition setup_only :: "event list \<Rightarrow> bool" where
  "setup_only t = (filter is_scan (calls t) = [] \<and> filter is_report (calls t) = [])"

subsection \<open>Example runs\<close>

text \<open>
  A push to the repository of an individual account, no license, no configuration;
  the latest engine installs and the scan finds nothing.
\<close>

definition push_by_user :: world where
  "push_by_user =
     \<lparr>env = [''GITHUB_EVENT_NAME'' \<mapsto> ''push''],
      eventJSON = \<lparr>repository_owner_login = ''octocat'', after = Some ''7fd1a60'',
                   before = Some ''553c207''\<rparr>,
      octokit_request = (\<lambda>_. Resolved (Some ''User'')),
      keygen_ValidateKey = (\<lambda>_. Returns ()),
      gitleaks_Latest = Returns ''8.18.2'',
      gitleaks_Install = (\<lambda>_. Returns ''/tmp/gitleaks-8.18.2/gitleaks''),
      gitleaks_Scan = (\<lambda>_ _ _. Returns 0),
      gitleaks_ScanPullRequest = (\<lambda>_ _ _. Returns 0),
      summary_Write = (\<lambda>_ _. Returns ()),
      EXIT_CODE_LEAKS_DETECTED = 2\<rparr>"

text \<open>The same push to the repository of an organization that has set no license.\<close>

definition push_by_org_no_license :: world where
  "push_by_org_no_license =
     push_by_user\<lparr>octokit_request := (\<lambda>_. Resolved (Some ''Organization''))\<rparr>"

text \<open>An event kind that the action does not handle.\<close>

definition issues_event :: world where
  "issues_event = push_by_user\<lparr>env := [''GITHUB_EVENT_NAME'' \<mapsto> ''issues'']\<rparr>"

text \<open>A manual run on the same payload.\<close>

definition dispatch_by_user :: world where
  "dispatch_by_user = push_by_user\<lparr>env := [''GITHUB_EVENT_NAME'' \<mapsto> ''workflow_dispatch'']\<rparr>"

text \<open>
  A pull request in a licensed organization whose lookup fails; the scan reports leaks
  with the sentinel \<open>2\<close>.
\<close>

definition pull_request_with_leaks :: world where
  "pull_request_with_leaks =
     push_by_user\<lparr>env := [''GITHUB_EVENT_NAME'' \<mapsto> ''pull_request'',
                          ''GITLEAKS_LICENSE'' \<mapsto> ''0123-4567''],
                  octokit_request := (\<lambda>_. Rejected ''HttpError: Not Found''),
                  gitleaks_ScanPullRequest := (\<lambda>_ _ _. Returns 2)\<rparr>"

text \<open>A push whose scan ends with an exit code that is neither \<open>0\<close> nor the sentinel.\<close>

definition push_scan_fails_17 :: world where
  "push_scan_fails_17 = push_by_user\<lparr>gitleaks_Scan := (\<lambda>_ _ _. Returns 17)\<rparr>"

text \<open>A push with the summary switched off.\<close>

definition push_summary_off :: world where
  "push_summary_off =
     push_by_user\<lparr>env := [''GITHUB_EVENT_NAME'' \<mapsto> ''push'',
                          ''GITLEAKS_ENABLE_SUMMARY'' \<mapsto> ''false'']\<rparr>"

text \<open>A push whose scan throws instead of returning an exit code.\<close>

definition push_scan_throws :: world where
  "push_scan_throws =
     push_by_user\<lparr>gitleaks_Scan := (\<lambda>_ _ _. Throws ''Error: spawn gitleaks ENOENT'')\<rparr>"

text \<open>A push with both feature variables set to the empty string.\<close>

definition push_flags_empty :: world where
  "push_flags_empty =
     push_by_user\<lparr>env := [''GITHUB_EVENT_NAME'' \<mapsto> ''push'',
                          ''GITLEAKS_ENABLE_SUMMARY'' \<mapsto> [],
                          ''GITLEAKS_ENABLE_UPLOAD_ARTIFACT'' \<mapsto> []]\<rparr>"

section \<open>Properties\<close>

subsection \<open>Sequencing\<close>

lemma fst_and_then:
  "fst (and_then p f) = (case snd p of Stop s \<Rightarrow> fst p | Value v \<Rightarrow> fst p @ fst (f v))"
  by (simp add: and_then_def split: step.splits)

lemma snd_and_then:
  "snd (and_then p f) = (case snd p of Stop s \<Rightarrow> Stop s | Value v \<Rightarrow> snd (f v))"
  by (simp add: and_then_def split: step.splits)

lemma and_then_Value: "snd p = Value v \<Longrightarrow> and_then p f = (fst p @ fst (f v), snd (f v))"
  by (simp add: and_then_def)

lemma and_then_Stop: "snd p = Stop s \<Longrightarrow> and_then p f = (fst p, Stop s)"
  by (simp add: and_then_def)

lemmas prims = ret_def log_def await_def process_exit_def

lemma calls_simps: "calls [] = []" "calls (Log l m # t) = calls t" "calls (Call c # t) = c # calls t"
  "calls (a @ b) = calls a @ calls b"
  by (simp_all add: calls_def)

lemmas world_defs = push_by_user_def push_by_org_no_license_def issues_event_def
  dispatch_by_user_def pull_request_with_leaks_def push_scan_fails_17_def
  push_summary_off_def push_scan_throws_def push_flags_empty_def

subsection \<open>The steps of the script\<close>

lemma start_blocks:
  "start w shouldValidate =
     and_then (if \<not> Array_includes supportedEvents (eventType w)
               then and_then (log core_error (EventNotSupported (eventType w)))
                             (\<lambda>_. process_exit 1)
               else ret ()) (\<lambda>_.
     and_then (if shouldValidate
               then await (KeygenValidateKey (eventJSON w)) (keygen_ValidateKey w (eventJSON w))
               else ret ()) (\<lambda>_. install_and_scan w))"
  by (simp add: start_def install_and_scan_def scan_and_report_def report_and_interpret_def)

lemma startup_value: "snd (startup w) = Value ()"
  by (simp add: startup_def snd_and_then prims)

lemma startup_calls: "calls (fst (startup w)) = []"
  by (simp add: startup_def fst_and_then prims calls_simps)

lemma get_user_value:
  "snd (get_user w) = Value (octokit_request w (githubUsername w) \<noteq> Resolved (Some ''User''))"
  by (simp add: get_user_def then_callback_def catch_callback_def snd_and_then prims
           split: promise.splits)

lemma get_user_calls: "calls (fst (get_user w)) = [OctokitGetUser (githubUsername w)]"
  by (simp add: get_user_def then_callback_def catch_callback_def fst_and_then snd_and_then prims calls_simps
           split: promise.splits)

lemma main_eq:
  "main w = (fst (startup w) @ fst (get_user w)
               @ fst (finally_callback w (octokit_request w (githubUsername w) \<noteq> Resolved (Some ''User''))),
             snd (finally_callback w (octokit_request w (githubUsername w) \<noteq> Resolved (Some ''User''))))"
  by (simp add: main_def and_then_Value [OF startup_value] and_then_Value [OF get_user_value])

lemma finally_callback_exit:
  "shouldValidate \<Longrightarrow> \<not> truthy (env w ''GITLEAKS_LICENSE'') \<Longrightarrow>
   finally_callback w shouldValidate = ([Log core_error MissingLicense], Stop (Exit 1))"
  by (simp add: finally_callback_def and_then_def prims)

lemma finally_callback_start:
  "\<not> (shouldValidate \<and> \<not> truthy (env w ''GITLEAKS_LICENSE'')) \<Longrightarrow>
   finally_callback w shouldValidate = start w shouldValidate"
  by (auto simp add: finally_callback_def and_then_def prims)

lemma start_unsupported:
  "\<not> Array_includes supportedEvents (eventType w) \<Longrightarrow>
   start w shouldValidate = ([Log core_error (EventNotSupported (eventType w))], Stop (Exit 1))"
  by (simp add: start_blocks and_then_def prims)


lemma start_supported:
  "Array_includes supportedEvents (eventType w) \<Longrightarrow>
   start w shouldValidate =
     and_then (if shouldValidate
               then await (KeygenValidateKey (eventJSON w)) (keygen_ValidateKey w (eventJSON w))
               else ret ()) (\<lambda>_. install_and_scan w)"
  by (simp add: start_blocks and_then_def prims)

lemma supported_cases:
  "Array_includes supportedEvents (eventType w) =
     (eventType w = Some ''push'' \<or> eventType w = Some ''pull_request''
      \<or> eventType w = Some ''workflow_dispatch'')"
  by (auto simp add: Array_includes_def supportedEvents_def split: option.splits)

lemma scan_commit_range:
  "eventType w = Some t \<Longrightarrow> t = ''push'' \<or> t = ''workflow_dispatch'' \<Longrightarrow>
   scan w info = await (GitleaksScan (gitleaksEnableUploadArtifact w) info t)
                       (gitleaks_Scan w (gitleaksEnableUploadArtifact w) info t)"
  by (auto simp add: scan_def)

lemma scan_pull_request:
  "eventType w = Some ''pull_request'' \<Longrightarrow>
   scan w info = await (GitleaksScanPullRequest (gitleaksEnableUploadArtifact w) (eventJSON w)
                          ''pull_request'')
                       (gitleaks_ScanPullRequest w (gitleaksEnableUploadArtifact w) (eventJSON w)
                          ''pull_request'')"
  by (simp add: scan_def)

lemma scan_await:
  assumes "Array_includes supportedEvents (eventType w)"
  obtains c r where "scan w info = await c r" "is_scan c" "scan_outcome w c = Some r"
    "(\<exists>t. eventType w = Some t \<and> (t = ''push'' \<or> t = ''workflow_dispatch'')
          \<and> c = GitleaksScan (gitleaksEnableUploadArtifact w) info t)
     \<or> (eventType w = Some ''pull_request''
          \<and> c = GitleaksScanPullRequest (gitleaksEnableUploadArtifact w) (eventJSON w)
                  ''pull_request'')"
proof -
  from assms consider t where "eventType w = Some t" "t = ''push'' \<or> t = ''workflow_dispatch''"
    | "eventType w = Some ''pull_request''"
    by (auto simp add: supported_cases)
  then show thesis
  proof cases
    case 1
    from scan_commit_range [OF 1] show thesis
      by (rule that) (use 1 in \<open>simp_all add: is_scan_def scan_outcome_def\<close>)
  next
    case 2
    from scan_pull_request [OF 2] show thesis
      by (rule that) (use 2 in \<open>simp_all add: is_scan_def scan_outcome_def\<close>)
  qed
qed

lemma report_calls:
  "calls (fst (report_and_interpret w e)) =
     (if gitleaksEnableSummary w then [SummaryWrite e (eventJSON w)] else [])"
  by (simp add: report_and_interpret_def interpret_exitCode_def fst_and_then snd_and_then prims
                calls_simps split: outcome.splits)

lemma report_ending:
  "snd (report_and_interpret w e) =
     (if gitleaksEnableSummary w
      then case summary_Write w e (eventJSON w) of
             Returns _ \<Rightarrow> snd (interpret_exitCode w e)
           | Throws err \<Rightarrow> Stop (Uncaught err)
           | Exits n \<Rightarrow> Stop (Exit n)
      else snd (interpret_exitCode w e))"
  by (simp add: report_and_interpret_def snd_and_then prims split: outcome.splits)

lemma report_returns:
  "(gitleaksEnableSummary w \<Longrightarrow> summary_Write w e (eventJSON w) = Returns ()) \<Longrightarrow>
   report_and_interpret w e =
     ((if gitleaksEnableSummary w then [Call (SummaryWrite e (eventJSON w))] else [])
        @ fst (interpret_exitCode w e),
      snd (interpret_exitCode w e))"
  by (simp add: report_and_interpret_def and_then_def prims)

lemma main_trace:
  "trace w = fst (startup w) @ fst (get_user w)
             @ fst (finally_callback w (octokit_request w (githubUsername w) \<noteq> Resolved (Some ''User'')))"
  by (simp add: trace_def main_eq)

lemma main_ending:
  "ending w = ending_of (finally_callback w
                 (octokit_request w (githubUsername w) \<noteq> Resolved (Some ''User'')))"
  by (simp add: ending_def ending_of_def main_eq)


subsection \<open>The shape of a run\<close>

lemma setup_only_simps:
  "setup_only []" "setup_only (Log l m # t) = setup_only t"
  "setup_only (Call c # t) = (\<not> is_scan c \<and> \<not> is_report c \<and> setup_only t)"
  "setup_only (a @ b) = (setup_only a \<and> setup_only b)"
  by (auto simp add: setup_only_def calls_simps)

lemma scan_and_report_shape:
  assumes "Array_includes supportedEvents (eventType w)"
  obtains c r where "is_scan c" "scan_outcome w c = Some r"
    "fst (scan_and_report w path) =
       [Log core_info (EventTypeIs (eventType w)), Call c]
       @ (case r of Returns e \<Rightarrow> fst (report_and_interpret w e) | _ \<Rightarrow> [])"
    "snd (scan_and_report w path) =
       (case r of Returns e \<Rightarrow> snd (report_and_interpret w e)
                | Throws err \<Rightarrow> Stop (Uncaught err)
                | Exits n \<Rightarrow> Stop (Exit n))"
    "(\<exists>t. eventType w = Some t \<and> (t = ''push'' \<or> t = ''workflow_dispatch'')
          \<and> c = GitleaksScan (gitleaksEnableUploadArtifact w)
                  \<lparr>headRef = after (eventJSON w), baseRef = before (eventJSON w),
                   gitleaksPath = path\<rparr> t)
     \<or> (eventType w = Some ''pull_request''
          \<and> c = GitleaksScanPullRequest (gitleaksEnableUploadArtifact w) (eventJSON w)
                  ''pull_request'')"
proof -
  let ?info = "\<lparr>headRef = after (eventJSON w), baseRef = before (eventJSON w),
                gitleaksPath = path\<rparr>"
  from assms obtain c r where cr: "scan w ?info = await c r"
    and c: "is_scan c" and r: "scan_outcome w c = Some r"
    and form: "(\<exists>t. eventType w = Some t \<and> (t = ''push'' \<or> t = ''workflow_dispatch'')
          \<and> c = GitleaksScan (gitleaksEnableUploadArtifact w) ?info t)
     \<or> (eventType w = Some ''pull_request''
          \<and> c = GitleaksScanPullRequest (gitleaksEnableUploadArtifact w) (eventJSON w)
                  ''pull_request'')"
    by (rule scan_await)
  have f: "fst (scan_and_report w path) =
       [Log core_info (EventTypeIs (eventType w)), Call c]
       @ (case r of Returns e \<Rightarrow> fst (report_and_interpret w e) | _ \<Rightarrow> [])"
    by (simp add: scan_and_report_def cr fst_and_then snd_and_then prims
             split: outcome.splits)
  have s: "snd (scan_and_report w path) =
       (case r of Returns e \<Rightarrow> snd (report_and_interpret w e)
                | Throws err \<Rightarrow> Stop (Uncaught err)
                | Exits n \<Rightarrow> Stop (Exit n))"
    by (simp add: scan_and_report_def cr snd_and_then prims split: outcome.splits)
  from c r f s form show thesis by (rule that)
qed

lemma gitleaksVersion_setup: "setup_only (fst (gitleaksVersion w))"
  by (simp add: gitleaksVersion_def prims setup_only_simps is_scan_def is_report_def
           split: option.splits)

lemma install_and_scan_shape:
  obtains (stopped) pre s where "install_and_scan w = (pre, Stop s)" "setup_only pre"
  | (scanning) pre path where
      "install_and_scan w = (pre @ fst (scan_and_report w path), snd (scan_and_report w path))"
      "setup_only pre"
proof (cases "snd (gitleaksVersion w)")
  case (Stop s)
  then have "install_and_scan w = (fst (gitleaksVersion w), Stop s)"
    by (simp add: install_and_scan_def and_then_Stop [OF Stop])
  then show thesis using gitleaksVersion_setup by (rule stopped)
next
  case (Value version)
  let ?pre = "fst (gitleaksVersion w)
              @ [Log core_info (GitleaksVersion version), Call (GitleaksInstall version)]"
  have pre: "setup_only ?pre"
    by (simp add: setup_only_simps gitleaksVersion_setup is_scan_def is_report_def)
  show thesis
  proof (cases "gitleaks_Install w version")
    case (Returns path)
    then have "install_and_scan w
        = (?pre @ fst (scan_and_report w path), snd (scan_and_report w path))"
      by (simp add: install_and_scan_def and_then_Value [OF Value] prims fst_and_then snd_and_then)
    then show thesis using pre by (rule scanning)
  next
    case (Throws err)
    then have "install_and_scan w = (?pre, Stop (Uncaught err))"
      by (simp add: install_and_scan_def and_then_Value [OF Value] prims fst_and_then snd_and_then)
    then show thesis using pre by (rule stopped)
  next
    case (Exits n)
    then have "install_and_scan w = (?pre, Stop (Exit n))"
      by (simp add: install_and_scan_def and_then_Value [OF Value] prims fst_and_then snd_and_then)
    then show thesis using pre by (rule stopped)
  qed
qed


lemma start_shape:
  assumes "Array_includes supportedEvents (eventType w)"
  obtains (stopped) pre s where "start w shouldValidate = (pre, Stop s)" "setup_only pre"
  | (scanning) pre path where
      "start w shouldValidate
         = (pre @ fst (scan_and_report w path), snd (scan_and_report w path))"
      "setup_only pre"
proof -
  let ?validate = "if shouldValidate
                   then await (KeygenValidateKey (eventJSON w)) (keygen_ValidateKey w (eventJSON w))
                   else ret ()"
  have eq: "start w shouldValidate = and_then ?validate (\<lambda>_. install_and_scan w)"
    using assms by (rule start_supported)
  have quiet: "setup_only (fst ?validate)"
    by (simp add: prims setup_only_simps is_scan_def is_report_def)
  show thesis
  proof (cases "snd ?validate")
    case (Stop s)
    have "start w shouldValidate = (fst ?validate, Stop s)"
      unfolding eq by (rule and_then_Stop [OF Stop])
    then show thesis using quiet by (rule stopped)
  next
    case (Value u)
    have eq': "start w shouldValidate
                 = (fst ?validate @ fst (install_and_scan w), snd (install_and_scan w))"
      unfolding eq by (rule and_then_Value [OF Value])
    show thesis
    proof (cases w rule: install_and_scan_shape)
      case (stopped pre s)
      have "start w shouldValidate = (fst ?validate @ pre, Stop s)"
        unfolding eq' stopped(1) by simp
      moreover have "setup_only (fst ?validate @ pre)"
        using quiet stopped(2) by (simp add: setup_only_simps)
      ultimately show thesis by (rule that(1))
    next
      case (scanning pre path)
      have "start w shouldValidate
              = ((fst ?validate @ pre) @ fst (scan_and_report w path),
                 snd (scan_and_report w path))"
        unfolding eq' scanning(1) by simp
      moreover have "setup_only (fst ?validate @ pre)"
        using quiet scanning(2) by (simp add: setup_only_simps)
      ultimately show thesis by (rule that(2))
    qed
  qed
qed

lemma lookup_setup: "setup_only (fst (startup w) @ fst (get_user w))"
  by (simp add: setup_only_def calls_simps startup_calls get_user_calls is_scan_def is_report_def)

lemma main_shape:
  obtains (stopped) pre s where "main w = (pre, Stop s)" "setup_only pre"
  | (scanning) pre path where
      "Array_includes supportedEvents (eventType w)"
      "main w = (pre @ fst (scan_and_report w path), snd (scan_and_report w path))"
      "setup_only pre"
proof -
  let ?sv = "octokit_request w (githubUsername w) \<noteq> Resolved (Some ''User'')"
  let ?lookup = "fst (startup w) @ fst (get_user w)"
  have eq: "main w = (?lookup @ fst (finally_callback w ?sv), snd (finally_callback w ?sv))"
    using main_eq [of w] by simp
  show thesis
  proof (cases "?sv \<and> \<not> truthy (env w ''GITLEAKS_LICENSE'')")
    case True
    then have "finally_callback w ?sv = ([Log core_error MissingLicense], Stop (Exit 1))"
      by (simp add: finally_callback_exit)
    then have "main w = (?lookup @ [Log core_error MissingLicense], Stop (Exit 1))"
      unfolding eq by simp
    moreover have "setup_only (?lookup @ [Log core_error MissingLicense])"
      using lookup_setup [of w] by (simp add: setup_only_simps)
    ultimately show thesis by (rule stopped)
  next
    case False
    then have "finally_callback w ?sv = start w ?sv"
      by (rule finally_callback_start)
    then have eq': "main w = (?lookup @ fst (start w ?sv), snd (start w ?sv))"
      unfolding eq by simp
    show thesis
    proof (cases "Array_includes supportedEvents (eventType w)")
      case False
      then have "start w ?sv = ([Log core_error (EventNotSupported (eventType w))], Stop (Exit 1))"
        by (rule start_unsupported)
      then have "main w = (?lookup @ [Log core_error (EventNotSupported (eventType w))],
                           Stop (Exit 1))"
        unfolding eq' by simp
      moreover have "setup_only (?lookup @ [Log core_error (EventNotSupported (eventType w))])"
        using lookup_setup [of w] by (simp add: setup_only_simps)
      ultimately show thesis by (rule stopped)
    next
      case True
      show thesis
      proof (rule start_shape [OF True, where shouldValidate = ?sv])
        fix pre s
        assume st: "start w ?sv = (pre, Stop s)" and q: "setup_only pre"
        have "main w = (?lookup @ pre, Stop s)"
          unfolding eq' st by simp
        moreover have "setup_only (?lookup @ pre)"
          using lookup_setup [of w] q by (simp add: setup_only_simps)
        ultimately show thesis by (rule stopped)
      next
        fix pre path
        assume st: "start w ?sv
                      = (pre @ fst (scan_and_report w path), snd (scan_and_report w path))"
          and q: "setup_only pre"
        have "main w = ((?lookup @ pre) @ fst (scan_and_report w path),
                        snd (scan_and_report w path))"
          unfolding eq' st by simp
        moreover have "setup_only (?lookup @ pre)"
          using lookup_setup [of w] q by (simp add: setup_only_simps)
        ultimately show thesis by (rule scanning [OF True])
      qed
    qed
  qed
qed


lemma run_cases:
  obtains (no_scan) s where "scan_calls w = []" "reports w = []" "snd (main w) = Stop s"
  | (scan) c r pre where
      "scan_calls w = [c]" "scan_outcome w c = Some r"
      "trace w = pre @ [Call c]
                 @ (case r of Returns e \<Rightarrow> fst (report_and_interpret w e) | _ \<Rightarrow> [])"
      "snd (main w) = (case r of Returns e \<Rightarrow> snd (report_and_interpret w e)
                               | Throws err \<Rightarrow> Stop (Uncaught err)
                               | Exits n \<Rightarrow> Stop (Exit n))"
      "reports w = (case r of
                      Returns e \<Rightarrow> if gitleaksEnableSummary w
                                   then [SummaryWrite e (eventJSON w)] else []
                    | _ \<Rightarrow> [])"
      "setup_only pre"
      "(\<exists>t path. eventType w = Some t \<and> (t = ''push'' \<or> t = ''workflow_dispatch'')
          \<and> c = GitleaksScan (gitleaksEnableUploadArtifact w)
                  \<lparr>headRef = after (eventJSON w), baseRef = before (eventJSON w),
                   gitleaksPath = path\<rparr> t)
       \<or> (eventType w = Some ''pull_request''
          \<and> c = GitleaksScanPullRequest (gitleaksEnableUploadArtifact w) (eventJSON w)
                  ''pull_request'')"
proof (cases w rule: main_shape)
  case (stopped pre s)
  from stopped have "scan_calls w = []" "reports w = []"
    by (simp_all add: scan_calls_def reports_def trace_def setup_only_def)
  moreover from stopped have "snd (main w) = Stop s" by simp
  ultimately show thesis by (rule no_scan)
next
  case (scanning pre path)
  show thesis
  proof (rule scan_and_report_shape [OF scanning(1), where path = path])
    fix c r
    assume c: "is_scan c" and r: "scan_outcome w c = Some r"
      and f: "fst (scan_and_report w path) =
                [Log core_info (EventTypeIs (eventType w)), Call c]
                @ (case r of Returns e \<Rightarrow> fst (report_and_interpret w e) | _ \<Rightarrow> [])"
      and s: "snd (scan_and_report w path) =
                (case r of Returns e \<Rightarrow> snd (report_and_interpret w e)
                         | Throws err \<Rightarrow> Stop (Uncaught err)
                         | Exits n \<Rightarrow> Stop (Exit n))"
      and form: "(\<exists>t. eventType w = Some t \<and> (t = ''push'' \<or> t = ''workflow_dispatch'')
          \<and> c = GitleaksScan (gitleaksEnableUploadArtifact w)
                  \<lparr>headRef = after (eventJSON w), baseRef = before (eventJSON w),
                   gitleaksPath = path\<rparr> t)
       \<or> (eventType w = Some ''pull_request''
          \<and> c = GitleaksScanPullRequest (gitleaksEnableUploadArtifact w) (eventJSON w)
                  ''pull_request'')"
    let ?pre = "pre @ [Log core_info (EventTypeIs (eventType w))]"
    let ?rest = "case r of Returns e \<Rightarrow> fst (report_and_interpret w e) | _ \<Rightarrow> []"
    have t: "trace w = ?pre @ [Call c] @ ?rest"
      by (simp add: trace_def scanning(2) f)
    have q: "setup_only ?pre"
      using scanning(3) by (simp add: setup_only_simps)
    have c_not_report: "\<not> is_report c"
      using c by (cases c) (simp_all add: is_scan_def is_report_def)
    have rest: "calls ?rest = (case r of
                      Returns e \<Rightarrow> if gitleaksEnableSummary w
                                   then [SummaryWrite e (eventJSON w)] else []
                    | _ \<Rightarrow> [])"
      by (simp add: report_calls calls_simps split: outcome.splits)
    have sc: "scan_calls w = [c]"
      using q c by (simp add: scan_calls_def t calls_simps rest setup_only_def is_scan_def
                         split: outcome.splits)
    have rp: "reports w = (case r of
                      Returns e \<Rightarrow> if gitleaksEnableSummary w
                                   then [SummaryWrite e (eventJSON w)] else []
                    | _ \<Rightarrow> [])"
      using q c_not_report
      by (simp add: reports_def t calls_simps rest setup_only_def is_report_def
               split: outcome.splits)
    have e: "snd (main w) = (case r of Returns e \<Rightarrow> snd (report_and_interpret w e)
                               | Throws err \<Rightarrow> Stop (Uncaught err)
                               | Exits n \<Rightarrow> Stop (Exit n))"
      by (simp add: scanning(2) s)
    from form have form': "(\<exists>t path. eventType w = Some t \<and> (t = ''push'' \<or> t = ''workflow_dispatch'')
          \<and> c = GitleaksScan (gitleaksEnableUploadArtifact w)
                  \<lparr>headRef = after (eventJSON w), baseRef = before (eventJSON w),
                   gitleaksPath = path\<rparr> t)
       \<or> (eventType w = Some ''pull_request''
          \<and> c = GitleaksScanPullRequest (gitleaksEnableUploadArtifact w) (eventJSON w)
                  ''pull_request'')"
      by blast
    from sc r t e rp q form' show thesis by (rule scan)
  qed
qed

subsection \<open>Runs that reach the scan\<close>

lemma start_reaches_scan:
  assumes "Array_includes supportedEvents (eventType w)"
    and "shouldValidate \<longrightarrow> keygen_ValidateKey w (eventJSON w) = Returns ()"
    and "snd (gitleaksVersion w) = Value v"
    and "gitleaks_Install w v = Returns p"
  shows "\<exists>pre. fst (start w shouldValidate) = pre @ fst (scan_and_report w p)"
proof -
  let ?validate = "if shouldValidate
                   then await (KeygenValidateKey (eventJSON w)) (keygen_ValidateKey w (eventJSON w))
                   else ret ()"
  have val: "snd ?validate = Value ()"
    using assms(2) by (simp add: prims)
  have "start w shouldValidate = and_then ?validate (\<lambda>_. install_and_scan w)"
    using assms(1) by (rule start_supported)
  then have eq: "fst (start w shouldValidate) = fst ?validate @ fst (install_and_scan w)"
    by (simp add: and_then_Value [OF val])
  have "fst (install_and_scan w)
          = (fst (gitleaksVersion w)
             @ [Log core_info (GitleaksVersion v), Call (GitleaksInstall v)])
            @ fst (scan_and_report w p)"
    by (simp add: install_and_scan_def and_then_Value [OF assms(3)] fst_and_then snd_and_then
                  prims assms(4))
  with eq have "fst (start w shouldValidate)
          = (fst ?validate @ fst (gitleaksVersion w)
             @ [Log core_info (GitleaksVersion v), Call (GitleaksInstall v)])
            @ fst (scan_and_report w p)"
    by simp
  then show ?thesis by (rule exI)
qed

lemma main_reaches_scan:
  assumes "\<not> (octokit_request w (githubUsername w) \<noteq> Resolved (Some ''User'')
              \<and> \<not> truthy (env w ''GITLEAKS_LICENSE''))"
    and "Array_includes supportedEvents (eventType w)"
    and "octokit_request w (githubUsername w) \<noteq> Resolved (Some ''User'')
         \<longrightarrow> keygen_ValidateKey w (eventJSON w) = Returns ()"
    and "snd (gitleaksVersion w) = Value v"
    and "gitleaks_Install w v = Returns p"
  shows "\<exists>pre. trace w = pre @ fst (scan_and_report w p)"
proof -
  let ?sv = "octokit_request w (githubUsername w) \<noteq> Resolved (Some ''User'')"
  from start_reaches_scan [OF assms(2-5)]
  obtain pre where pre: "fst (start w ?sv) = pre @ fst (scan_and_report w p)" ..
  have "finally_callback w ?sv = start w ?sv"
    using assms(1) by (rule finally_callback_start)
  then have "trace w = (fst (startup w) @ fst (get_user w) @ pre) @ fst (scan_and_report w p)"
    by (simp add: main_trace pre)
  then show ?thesis by (rule exI)
qed

lemma in_calls_iff: "c \<in> set (calls t) \<longleftrightarrow> Call c \<in> set t"
proof (induction t)
  case Nil
  show ?case by (simp add: calls_simps)
next
  case (Cons e t)
  then show ?case by (cases e) (auto simp add: calls_simps)
qed

lemma scan_call_made:
  assumes "Array_includes supportedEvents (eventType w)"
    and "trace w = pre @ fst (scan_and_report w p)"
  shows "scan_calls w \<noteq> []"
    and "eventType w = Some t \<Longrightarrow> t = ''push'' \<or> t = ''workflow_dispatch'' \<Longrightarrow>
         GitleaksScan (gitleaksEnableUploadArtifact w)
           \<lparr>headRef = after (eventJSON w), baseRef = before (eventJSON w), gitleaksPath = p\<rparr> t
         \<in> set (scan_calls w)"
proof -
  from assms(1) obtain c r where c: "is_scan c"
    and f: "fst (scan_and_report w p) =
              [Log core_info (EventTypeIs (eventType w)), Call c]
              @ (case r of Returns e \<Rightarrow> fst (report_and_interpret w e) | _ \<Rightarrow> [])"
    and form: "(\<exists>t. eventType w = Some t \<and> (t = ''push'' \<or> t = ''workflow_dispatch'')
          \<and> c = GitleaksScan (gitleaksEnableUploadArtifact w)
                  \<lparr>headRef = after (eventJSON w), baseRef = before (eventJSON w),
                   gitleaksPath = p\<rparr> t)
       \<or> (eventType w = Some ''pull_request''
          \<and> c = GitleaksScanPullRequest (gitleaksEnableUploadArtifact w) (eventJSON w)
                  ''pull_request'')"
    by (rule scan_and_report_shape [where path = p])
  have "Call c \<in> set (trace w)"
    by (simp add: assms(2) f)
  with c have mem: "c \<in> set (scan_calls w)"
    by (simp add: scan_calls_def in_calls_iff)
  then show "scan_calls w \<noteq> []" by auto
  show "GitleaksScan (gitleaksEnableUploadArtifact w)
           \<lparr>headRef = after (eventJSON w), baseRef = before (eventJSON w), gitleaksPath = p\<rparr> t
         \<in> set (scan_calls w)"
    if "eventType w = Some t" "t = ''push'' \<or> t = ''workflow_dispatch''"
    using form that mem by auto
qed

lemma run_scan_returns:
  assumes "c \<in> set (scan_calls w)"
    and "scan_outcome w c = Some (Returns e)"
    and "gitleaksEnableSummary w \<longrightarrow> summary_Write w e (eventJSON w) = Returns ()"
  shows "ending w = ending_of (interpret_exitCode w e)"
    and "\<exists>pre. trace w = pre @ fst (interpret_exitCode w e)"
proof -
  from assms(3) have rep: "report_and_interpret w e =
     ((if gitleaksEnableSummary w then [Call (SummaryWrite e (eventJSON w))] else [])
        @ fst (interpret_exitCode w e),
      snd (interpret_exitCode w e))"
    by (intro report_returns) simp
  show "ending w = ending_of (interpret_exitCode w e)"
  proof (cases w rule: run_cases)
    case (no_scan s)
    with assms(1) show ?thesis by simp
  next
    case (scan c' r pre)
    with assms(1,2) have "r = Returns e" by simp
    with scan(4) rep show ?thesis by (simp add: ending_def ending_of_def)
  qed
  show "\<exists>pre. trace w = pre @ fst (interpret_exitCode w e)"
  proof (cases w rule: run_cases)
    case (no_scan s)
    with assms(1) show ?thesis by simp
  next
    case (scan c' r pre)
    with assms(1,2) have "r = Returns e" by simp
    with scan(3) rep have "trace w = (pre @ [Call c']
        @ (if gitleaksEnableSummary w then [Call (SummaryWrite e (eventJSON w))] else []))
        @ fst (interpret_exitCode w e)" by simp
    then show ?thesis by (rule exI)
  qed
qed

lemma notin_and_then:
  "x \<notin> set (fst p) \<Longrightarrow> (\<And>v. x \<notin> set (fst (f v))) \<Longrightarrow> x \<notin> set (fst (and_then p f))"
  by (simp add: fst_and_then split: step.splits)

lemma start_never_logs_missing_license:
  "Log core_error MissingLicense \<notin> set (fst (start w shouldValidate))"
  unfolding start_def
  by (intro notin_and_then)
     (simp_all add: prims fst_and_then scan_def gitleaksVersion_def interpret_exitCode_def
               split: option.splits)

lemma start_without_validation:
  "Call (KeygenValidateKey j) \<notin> set (fst (start w False))"
  unfolding start_def
  by (intro notin_and_then)
     (simp_all add: prims fst_and_then scan_def gitleaksVersion_def interpret_exitCode_def
               split: option.splits)

lemma startup_events:
  "set (fst (startup w))
     \<subseteq> {Log core_debug DisablingSummary, Log core_debug DisablingUploadArtifact}"
  by (simp add: startup_def fst_and_then prims)

lemma get_user_individual:
  "octokit_request w (githubUsername w) = Resolved (Some ''User'') \<Longrightarrow>
   get_user w = ([Call (OctokitGetUser (githubUsername w)),
                  Log core_info (IsIndividual (githubUsername w))], Value False)"
  by (simp add: get_user_def then_callback_def and_then_def prims)

subsection \<open>C1: interpretation of the scan's exit code\<close>

text \<open>
  C1. The exit code \<open>e\<close> that the scan returned is interpreted in three ways. \<open>0\<close>: an
  informational entry "No leaks detected" and no call of \<open>process.exit\<close>, so the process
  ends with status 0. The leak sentinel \<open>EXIT_CODE_LEAKS_DETECTED\<close> (a nonzero value of
  the engine module; the test for \<open>0\<close> comes first): a warning and \<open>process.exit(1)\<close>, not
  the sentinel. Any other value: an error entry that carries \<open>e\<close>, and \<open>process.exit(e)\<close>.
  In every run whose scan call returned \<open>e\<close> and whose summary, if enabled, was written,
  these entries close the trace and this is how the run ends.
\<close>

theorem exit_code_interpretation:
  "(e = 0 \<longrightarrow>
      interpret_exitCode w e = ([Log core_info NoLeaksDetected], Value ())
      \<and> exit_status (ending_of (interpret_exitCode w e)) = Some 0)
   \<and> (e \<noteq> 0 \<and> e = EXIT_CODE_LEAKS_DETECTED w \<longrightarrow>
      interpret_exitCode w e = ([Log core_warning LeaksDetected], Stop (Exit 1))
      \<and> exit_status (ending_of (interpret_exitCode w e)) = Some 1)
   \<and> (e \<noteq> 0 \<and> e \<noteq> EXIT_CODE_LEAKS_DETECTED w \<longrightarrow>
      interpret_exitCode w e = ([Log core_error (UnexpectedExitCode e)], Stop (Exit e))
      \<and> exit_status (ending_of (interpret_exitCode w e)) = Some e)
   \<and> (\<forall>c \<in> set (scan_calls w).
        scan_outcome w c = Some (Returns e)
        \<and> (gitleaksEnableSummary w \<longrightarrow> summary_Write w e (eventJSON w) = Returns ())
        \<longrightarrow> ending w = ending_of (interpret_exitCode w e)
            \<and> (\<exists>pre. trace w = pre @ fst (interpret_exitCode w e)))"
proof (intro conjI impI ballI)
  fix c
  assume c: "c \<in> set (scan_calls w)"
    and h: "scan_outcome w c = Some (Returns e)
            \<and> (gitleaksEnableSummary w \<longrightarrow> summary_Write w e (eventJSON w) = Returns ())"
  from h have o: "scan_outcome w c = Some (Returns e)"
    and sw: "gitleaksEnableSummary w \<longrightarrow> summary_Write w e (eventJSON w) = Returns ()"
    by simp_all
  show "ending w = ending_of (interpret_exitCode w e)"
    using c o sw by (rule run_scan_returns(1))
  show "\<exists>pre. trace w = pre @ fst (interpret_exitCode w e)"
    using c o sw by (rule run_scan_returns(2))
qed (simp_all add: interpret_exitCode_def and_then_def prims ending_of_def exit_status_def)

text \<open>The three cases at \<open>0\<close>, \<open>2\<close> and \<open>17\<close>, and the run of a push whose scan returns 17.\<close>

theorem exit_code_interpretation_witness:
  "interpret_exitCode push_scan_fails_17 0 = ([Log core_info NoLeaksDetected], Value ())
   \<and> interpret_exitCode push_scan_fails_17 2 = ([Log core_warning LeaksDetected], Stop (Exit 1))
   \<and> interpret_exitCode push_scan_fails_17 17
       = ([Log core_error (UnexpectedExitCode 17)], Stop (Exit 17))
   \<and> scan_calls push_scan_fails_17
       = [GitleaksScan True
            \<lparr>headRef = Some ''7fd1a60'', baseRef = Some ''553c207'',
             gitleaksPath = ''/tmp/gitleaks-8.18.2/gitleaks''\<rparr> ''push'']
   \<and> ending push_scan_fails_17 = Exit 17
   \<and> exit_status (ending push_scan_fails_17) = Some 17"
proof -
  have L: "EXIT_CODE_LEAKS_DETECTED push_scan_fails_17 = 2"
    by (simp add: world_defs)
  have sc: "scan_calls push_scan_fails_17
       = [GitleaksScan True
            \<lparr>headRef = Some ''7fd1a60'', baseRef = Some ''553c207'',
             gitleaksPath = ''/tmp/gitleaks-8.18.2/gitleaks''\<rparr> ''push'']"
    by code_simp
  have out: "scan_outcome push_scan_fails_17
        (GitleaksScan True
            \<lparr>headRef = Some ''7fd1a60'', baseRef = Some ''553c207'',
             gitleaksPath = ''/tmp/gitleaks-8.18.2/gitleaks''\<rparr> ''push'') = Some (Returns 17)"
    by (simp add: scan_outcome_def world_defs)
  have sw: "summary_Write push_scan_fails_17 17 (eventJSON push_scan_fails_17) = Returns ()"
    by (simp add: world_defs)
  from exit_code_interpretation [of 0 push_scan_fails_17]
    exit_code_interpretation [of 2 push_scan_fails_17]
    exit_code_interpretation [of 17 push_scan_fails_17] L sc out sw
  show ?thesis by (simp add: exit_status_def ending_of_def)
qed

subsection \<open>C2: the exit codes of the three failures\<close>

text \<open>
  C2, as claimed: the exit code of a license-gate failure and that of an unsupported event
  are fixed, nonzero and different from 1, the code for detected leaks. The code calls
  \<open>process.exit(1)\<close> in all three places: a push to an organization without license, an
  \<open>issues\<close> event and a pull request with leaks all end with exit code 1 and differ only in
  their last log entry.
\<close>

theorem failure_exit_codes_coincide:
  "ending push_by_org_no_license = Exit 1
   \<and> last (trace push_by_org_no_license) = Log core_error MissingLicense
   \<and> ending issues_event = Exit 1
   \<and> last (trace issues_event) = Log core_error (EventNotSupported (Some ''issues''))
   \<and> ending pull_request_with_leaks = Exit 1
   \<and> last (trace pull_request_with_leaks) = Log core_warning LeaksDetected"
  by code_simp

text \<open>
  C2, amended. The three failures use the same fixed nonzero exit code, 1. A run that
  fails at the license gate ends with \<open>process.exit(1)\<close> after the missing-license error; a
  run that passes the gate on an unsupported event ends with \<open>process.exit(1)\<close> after the
  unsupported-event error; a run whose scan returns the (nonzero) leak sentinel, the
  summary being off or written, ends with \<open>process.exit(1)\<close> after the leaks warning.
\<close>

theorem failure_exit_codes_are_1:
  "(octokit_request w (githubUsername w) \<noteq> Resolved (Some ''User'')
      \<and> \<not> truthy (env w ''GITLEAKS_LICENSE'')
    \<longrightarrow> ending w = Exit 1 \<and> last (trace w) = Log core_error MissingLicense)
   \<and> (\<not> (octokit_request w (githubUsername w) \<noteq> Resolved (Some ''User'')
           \<and> \<not> truthy (env w ''GITLEAKS_LICENSE''))
       \<and> \<not> Array_includes supportedEvents (eventType w)
    \<longrightarrow> ending w = Exit 1
        \<and> last (trace w) = Log core_error (EventNotSupported (eventType w)))
   \<and> (\<forall>c \<in> set (scan_calls w).
         EXIT_CODE_LEAKS_DETECTED w \<noteq> 0
         \<and> scan_outcome w c = Some (Returns (EXIT_CODE_LEAKS_DETECTED w))
         \<and> (gitleaksEnableSummary w \<longrightarrow>
              summary_Write w (EXIT_CODE_LEAKS_DETECTED w) (eventJSON w) = Returns ())
    \<longrightarrow> ending w = Exit 1 \<and> last (trace w) = Log core_warning LeaksDetected)"
proof (intro conjI impI ballI)
  let ?sv = "octokit_request w (githubUsername w) \<noteq> Resolved (Some ''User'')"
  {
    assume h: "?sv \<and> \<not> truthy (env w ''GITLEAKS_LICENSE'')"
    then have gate: "finally_callback w ?sv = ([Log core_error MissingLicense], Stop (Exit 1))"
      by (simp add: finally_callback_exit)
    show "ending w = Exit 1"
      by (simp add: main_ending gate ending_of_def)
    show "last (trace w) = Log core_error MissingLicense"
      by (simp add: main_trace gate)
  }
  {
    assume h: "\<not> (?sv \<and> \<not> truthy (env w ''GITLEAKS_LICENSE''))
               \<and> \<not> Array_includes supportedEvents (eventType w)"
    then have "finally_callback w ?sv = start w ?sv"
      by (intro finally_callback_start) simp
    with h have fin: "finally_callback w ?sv
        = ([Log core_error (EventNotSupported (eventType w))], Stop (Exit 1))"
      by (simp add: start_unsupported)
    show "ending w = Exit 1"
      by (simp add: main_ending fin ending_of_def)
    show "last (trace w) = Log core_error (EventNotSupported (eventType w))"
      by (simp add: main_trace fin)
  }
  {
    fix c
    assume c: "c \<in> set (scan_calls w)"
      and h: "EXIT_CODE_LEAKS_DETECTED w \<noteq> 0
         \<and> scan_outcome w c = Some (Returns (EXIT_CODE_LEAKS_DETECTED w))
         \<and> (gitleaksEnableSummary w \<longrightarrow>
              summary_Write w (EXIT_CODE_LEAKS_DETECTED w) (eventJSON w) = Returns ())"
    have i: "interpret_exitCode w (EXIT_CODE_LEAKS_DETECTED w)
               = ([Log core_warning LeaksDetected], Stop (Exit 1))"
      using h by (simp add: interpret_exitCode_def and_then_def prims)
    from h have o: "scan_outcome w c = Some (Returns (EXIT_CODE_LEAKS_DETECTED w))"
      and sw: "gitleaksEnableSummary w \<longrightarrow>
              summary_Write w (EXIT_CODE_LEAKS_DETECTED w) (eventJSON w) = Returns ()"
      by simp_all
    show "ending w = Exit 1"
      using run_scan_returns(1) [OF c o sw] by (simp add: i ending_of_def)
    from run_scan_returns(2) [OF c o sw]
    show "last (trace w) = Log core_warning LeaksDetected"
      by (auto simp add: i)
  }
qed

text \<open>The three example runs, each through its own clause.\<close>

theorem failure_exit_codes_are_1_witness:
  "ending push_by_org_no_license = Exit 1
   \<and> ending issues_event = Exit 1
   \<and> scan_calls pull_request_with_leaks
        = [GitleaksScanPullRequest True (eventJSON pull_request_with_leaks) ''pull_request'']
   \<and> ending pull_request_with_leaks = Exit 1"
proof -
  have 1: "octokit_request push_by_org_no_license (githubUsername push_by_org_no_license)
             \<noteq> Resolved (Some ''User'')
           \<and> \<not> truthy (env push_by_org_no_license ''GITLEAKS_LICENSE'')"
    by (simp add: world_defs truthy_def)
  have 2: "\<not> (octokit_request issues_event (githubUsername issues_event)
                 \<noteq> Resolved (Some ''User'')
               \<and> \<not> truthy (env issues_event ''GITLEAKS_LICENSE''))
           \<and> \<not> Array_includes supportedEvents (eventType issues_event)"
    by (simp add: world_defs Array_includes_def supportedEvents_def eventType_def)
  have sc: "scan_calls pull_request_with_leaks
        = [GitleaksScanPullRequest True (eventJSON pull_request_with_leaks) ''pull_request'']"
    by code_simp
  have 3: "EXIT_CODE_LEAKS_DETECTED pull_request_with_leaks \<noteq> 0
         \<and> scan_outcome pull_request_with_leaks
              (GitleaksScanPullRequest True (eventJSON pull_request_with_leaks) ''pull_request'')
             = Some (Returns (EXIT_CODE_LEAKS_DETECTED pull_request_with_leaks))
         \<and> (gitleaksEnableSummary pull_request_with_leaks \<longrightarrow>
              summary_Write pull_request_with_leaks
                (EXIT_CODE_LEAKS_DETECTED pull_request_with_leaks)
                (eventJSON pull_request_with_leaks) = Returns ())"
    by (simp add: world_defs scan_outcome_def)
  have a: "ending push_by_org_no_license = Exit 1"
    using failure_exit_codes_are_1 [of push_by_org_no_license] 1 by blast
  have b: "ending issues_event = Exit 1"
    using failure_exit_codes_are_1 [of issues_event] 2 by blast
  have c: "ending pull_request_with_leaks = Exit 1"
    using failure_exit_codes_are_1 [of pull_request_with_leaks] 3 by (simp add: sc)
  from a b sc c show ?thesis by simp
qed

subsection \<open>C3: how often the summary is written\<close>

text \<open>
  C3, as claimed: in every run that calls the scan executor the summary writer is called
  exactly once. With \<open>GITLEAKS_ENABLE_SUMMARY=false\<close> a push is scanned and
  \<open>summary.Write\<close> is never called.
\<close>

theorem summary_off_never_reports:
  "scan_calls push_summary_off
     = [GitleaksScan True
          \<lparr>headRef = Some ''7fd1a60'', baseRef = Some ''553c207'',
           gitleaksPath = ''/tmp/gitleaks-8.18.2/gitleaks''\<rparr> ''push'']
   \<and> length (reports push_summary_off) \<noteq> 1"
  by code_simp

text \<open>
  C3, amended. \<open>summary.Write\<close> is called at most once in any run. In a run whose scan
  call returned an exit code \<open>e\<close>, whatever \<open>e\<close> is, it is called exactly once, with \<open>e\<close> and
  the event payload, when \<open>gitleaksEnableSummary\<close> is true, and not at all when it is false.
  The flag does not touch the interpretation of \<open>e\<close>: with the summary off, or written, the
  run closes with the entries and the ending of \<open>interpret_exitCode w e\<close>.
\<close>

theorem summary_written_at_most_once:
  "length (reports w) \<le> 1
   \<and> (\<forall>c \<in> set (scan_calls w). \<forall>e.
         scan_outcome w c = Some (Returns e)
         \<longrightarrow> reports w = (if gitleaksEnableSummary w
                           then [SummaryWrite e (eventJSON w)] else []))
   \<and> (\<forall>c \<in> set (scan_calls w). \<forall>e.
         scan_outcome w c = Some (Returns e)
         \<and> (gitleaksEnableSummary w \<longrightarrow> summary_Write w e (eventJSON w) = Returns ())
         \<longrightarrow> ending w = ending_of (interpret_exitCode w e)
             \<and> (\<exists>pre. trace w = pre @ fst (interpret_exitCode w e)))"
proof (intro conjI ballI allI impI)
  show "length (reports w) \<le> 1"
  proof (cases w rule: run_cases)
    case (no_scan s)
    then show ?thesis by simp
  next
    case (scan c r pre)
    then show ?thesis by (simp split: outcome.splits)
  qed
next
  fix c e
  assume c: "c \<in> set (scan_calls w)" and o: "scan_outcome w c = Some (Returns e)"
  show "reports w = (if gitleaksEnableSummary w then [SummaryWrite e (eventJSON w)] else [])"
  proof (cases w rule: run_cases)
    case (no_scan s)
    with c show ?thesis by simp
  next
    case (scan c' r pre)
    with c o have "r = Returns e" by simp
    with scan(5) show ?thesis by simp
  qed
next
  fix c e
  assume c: "c \<in> set (scan_calls w)"
    and h: "scan_outcome w c = Some (Returns e)
         \<and> (gitleaksEnableSummary w \<longrightarrow> summary_Write w e (eventJSON w) = Returns ())"
  from h have o: "scan_outcome w c = Some (Returns e)"
    and sw: "gitleaksEnableSummary w \<longrightarrow> summary_Write w e (eventJSON w) = Returns ()"
    by simp_all
  show "ending w = ending_of (interpret_exitCode w e)"
    using c o sw by (rule run_scan_returns(1))
  show "\<exists>pre. trace w = pre @ fst (interpret_exitCode w e)"
    using c o sw by (rule run_scan_returns(2))
qed

text \<open>
  A push whose scan returns 17: one summary with 17, and exit code 17. The same push with
  the summary off and a clean scan: no summary, and the run finishes.
\<close>

theorem summary_written_at_most_once_witness:
  "reports push_scan_fails_17 = [SummaryWrite 17 (eventJSON push_scan_fails_17)]
   \<and> ending push_scan_fails_17 = Exit 17
   \<and> reports push_summary_off = []
   \<and> ending push_summary_off = Finished"
proof -
  let ?c = "GitleaksScan True
          \<lparr>headRef = Some ''7fd1a60'', baseRef = Some ''553c207'',
           gitleaksPath = ''/tmp/gitleaks-8.18.2/gitleaks''\<rparr> ''push''"
  have sc: "?c \<in> set (scan_calls push_scan_fails_17)" "?c \<in> set (scan_calls push_summary_off)"
    by code_simp+
  have o: "scan_outcome push_scan_fails_17 ?c = Some (Returns 17)"
    "scan_outcome push_summary_off ?c = Some (Returns 0)"
    by (simp_all add: world_defs scan_outcome_def)
  have f: "gitleaksEnableSummary push_scan_fails_17" "\<not> gitleaksEnableSummary push_summary_off"
    by (simp_all add: world_defs gitleaksEnableSummary_def loose_eq_string_def loose_eq_zero_def)
  have sw: "summary_Write push_scan_fails_17 17 (eventJSON push_scan_fails_17) = Returns ()"
    by (simp add: world_defs)
  have i: "ending_of (interpret_exitCode push_scan_fails_17 17) = Exit 17"
    "ending_of (interpret_exitCode push_summary_off 0) = Finished"
    by (simp_all add: world_defs interpret_exitCode_def and_then_def prims ending_of_def)
  have a: "reports push_scan_fails_17 = [SummaryWrite 17 (eventJSON push_scan_fails_17)]"
    "ending push_scan_fails_17 = Exit 17"
    using summary_written_at_most_once [of push_scan_fails_17] sc(1) o(1) f(1) sw i(1)
    by auto
  have b: "reports push_summary_off = []" "ending push_summary_off = Finished"
    using summary_written_at_most_once [of push_summary_off] sc(2) o(2) f(2) i(2)
    by auto
  from a b show ?thesis by simp
qed

subsection \<open>C4: a scan executor that throws\<close>

text \<open>
  C4, as claimed: when the scan executor throws, the controller catches the failure, maps
  it to an execution-error outcome and still reaches the reporting and exit-code steps.
  \<open>start\<close> has no \<open>try\<close>: in a push whose scan throws, the scan call is the last thing the
  run does, the summary is not written, and the run ends with the rejection unhandled.
\<close>

theorem scan_throw_is_not_caught:
  "scan_calls push_scan_throws
     = [GitleaksScan True
          \<lparr>headRef = Some ''7fd1a60'', baseRef = Some ''553c207'',
           gitleaksPath = ''/tmp/gitleaks-8.18.2/gitleaks''\<rparr> ''push'']
   \<and> gitleaks_Scan push_scan_throws True
          \<lparr>headRef = Some ''7fd1a60'', baseRef = Some ''553c207'',
           gitleaksPath = ''/tmp/gitleaks-8.18.2/gitleaks''\<rparr> ''push''
       = Throws ''Error: spawn gitleaks ENOENT''
   \<and> reports push_scan_throws = []
   \<and> ending push_scan_throws = Uncaught ''Error: spawn gitleaks ENOENT''
   \<and> last (trace push_scan_throws)
       = Call (GitleaksScan True
          \<lparr>headRef = Some ''7fd1a60'', baseRef = Some ''553c207'',
           gitleaksPath = ''/tmp/gitleaks-8.18.2/gitleaks''\<rparr> ''push'')"
  by code_simp

text \<open>
  C4, amended. When the scan executor throws, the controller does not catch it: the
  promise of \<open>start\<close> is rejected with that error and nothing handles it, the scan call is
  the last event of the run, \<open>summary.Write\<close> is not called and no exit code is chosen by
  the script. Only a scan call that returns an exit code reaches the reporting and
  exit-code steps.
\<close>

theorem scan_throw_rejects_start:
  "\<forall>c \<in> set (scan_calls w). \<forall>err.
     scan_outcome w c = Some (Throws err)
     \<longrightarrow> ending w = Uncaught err \<and> exit_status (ending w) = None
         \<and> reports w = [] \<and> last (trace w) = Call c"
proof (intro ballI allI impI)
  fix c err
  assume c: "c \<in> set (scan_calls w)" and o: "scan_outcome w c = Some (Throws err)"
  show "ending w = Uncaught err \<and> exit_status (ending w) = None
         \<and> reports w = [] \<and> last (trace w) = Call c"
  proof (cases w rule: run_cases)
    case (no_scan s)
    with c show ?thesis by simp
  next
    case (scan c' r pre)
    with c o have r: "r = Throws err" and c': "c' = c" by simp_all
    from scan(3,4,5) show ?thesis
      by (simp add: r c' ending_def ending_of_def exit_status_def)
  qed
qed

text \<open>The push whose scan throws.\<close>

theorem scan_throw_rejects_start_witness:
  "ending push_scan_throws = Uncaught ''Error: spawn gitleaks ENOENT''
   \<and> exit_status (ending push_scan_throws) = None
   \<and> reports push_scan_throws = []"
proof -
  let ?c = "GitleaksScan True
          \<lparr>headRef = Some ''7fd1a60'', baseRef = Some ''553c207'',
           gitleaksPath = ''/tmp/gitleaks-8.18.2/gitleaks''\<rparr> ''push''"
  have sc: "?c \<in> set (scan_calls push_scan_throws)"
    by code_simp
  have o: "scan_outcome push_scan_throws ?c = Some (Throws ''Error: spawn gitleaks ENOENT'')"
    by (simp add: world_defs scan_outcome_def)
  from scan_throw_rejects_start [of push_scan_throws] sc o show ?thesis by blast
qed

subsection \<open>C5: individual accounts pass the gate\<close>

text \<open>
  C5. When the lookup says "User", \<open>shouldValidate\<close> becomes false and the gate lets the run
  through whatever \<open>GITLEAKS_LICENSE\<close> is: set, unset or empty. The run is the startup
  entries, the lookup, and \<open>start\<close> with validation off. It never logs the missing-license
  error and never calls \<open>keygen.ValidateKey\<close>. On a supported event, once the engine
  version is resolved and installed, the scan executor is called.
\<close>

theorem individual_passes_gate:
  assumes "octokit_request w (githubUsername w) = Resolved (Some ''User'')"
  shows "get_user w = ([Call (OctokitGetUser (githubUsername w)),
                        Log core_info (IsIndividual (githubUsername w))], Value False)
    \<and> finally_callback w False = start w False
    \<and> trace w = fst (startup w) @ fst (get_user w) @ fst (start w False)
    \<and> ending w = ending_of (start w False)
    \<and> Log core_error MissingLicense \<notin> set (trace w)
    \<and> (\<forall>j. KeygenValidateKey j \<notin> set (calls (trace w)))
    \<and> (Array_includes supportedEvents (eventType w) \<and> snd (gitleaksVersion w) = Value v
        \<and> gitleaks_Install w v = Returns p \<longrightarrow> scan_calls w \<noteq> [])"
proof -
  have gu: "get_user w = ([Call (OctokitGetUser (githubUsername w)),
                        Log core_info (IsIndividual (githubUsername w))], Value False)"
    using assms by (rule get_user_individual)
  have gate: "finally_callback w False = start w False"
    by (simp add: finally_callback_start)
  have t: "trace w = fst (startup w) @ fst (get_user w) @ fst (start w False)"
    using assms gate by (simp add: main_trace)
  have e: "ending w = ending_of (start w False)"
    using assms gate by (simp add: main_ending)
  have m: "Log core_error MissingLicense \<notin> set (trace w)"
    using startup_events [of w] start_never_logs_missing_license [of w False]
    by (auto simp add: t gu)
  have k: "KeygenValidateKey j \<notin> set (calls (trace w))" for j
    using startup_events [of w] start_without_validation [of j w]
    by (auto simp add: in_calls_iff t gu)
  have s: "scan_calls w \<noteq> []"
    if "Array_includes supportedEvents (eventType w) \<and> snd (gitleaksVersion w) = Value v
        \<and> gitleaks_Install w v = Returns p"
  proof -
    from that assms have "\<exists>pre. trace w = pre @ fst (scan_and_report w p)"
      by (intro main_reaches_scan [where v = v]) simp_all
    then obtain pre where "trace w = pre @ fst (scan_and_report w p)" ..
    with that show ?thesis by (intro scan_call_made(1)) simp_all
  qed
  from gu gate t e m k s show ?thesis by blast
qed

text \<open>A push to an individual's repository with no license set is scanned.\<close>

theorem individual_passes_gate_witness:
  "env push_by_user ''GITLEAKS_LICENSE'' = None
   \<and> finally_callback push_by_user False = start push_by_user False
   \<and> Log core_error MissingLicense \<notin> set (trace push_by_user)
   \<and> KeygenValidateKey (eventJSON push_by_user) \<notin> set (calls (trace push_by_user))
   \<and> scan_calls push_by_user \<noteq> []
   \<and> ending push_by_user = Finished"
proof -
  have a: "octokit_request push_by_user (githubUsername push_by_user) = Resolved (Some ''User'')"
    by (simp add: world_defs)
  have l: "env push_by_user ''GITLEAKS_LICENSE'' = None"
    by (simp add: world_defs)
  have sup: "Array_includes supportedEvents (eventType push_by_user)"
    by (simp add: world_defs Array_includes_def supportedEvents_def eventType_def)
  have v: "snd (gitleaksVersion push_by_user) = Value ''8.18.2''"
    by (simp add: world_defs gitleaksVersion_def prims)
  have i: "gitleaks_Install push_by_user ''8.18.2'' = Returns ''/tmp/gitleaks-8.18.2/gitleaks''"
    by (simp add: world_defs)
  have e: "ending push_by_user = Finished"
    by code_simp
  from individual_passes_gate [OF a, of "''8.18.2''" "''/tmp/gitleaks-8.18.2/gitleaks''"]
    l sup v i e
  show ?thesis by blast
qed

subsection \<open>C6: no license for an organization or an unknown owner\<close>




subsection \<open>C7: unsupported event kinds\<close>

text \<open>
  C7. When the event name is none of \<open>push\<close>, \<open>pull_request\<close>, \<open>workflow_dispatch\<close> (or is
  unset), \<open>start\<close> logs an error and calls \<open>process.exit(1)\<close> at once, and the whole run ends
  with exit code 1. The identity lookup is its only call: the license key is not
  validated, no engine version is resolved or installed, and nothing is scanned.
\<close>

theorem unsupported_event_stops_run:
  assumes "eventType w \<notin> {Some ''push'', Some ''pull_request'', Some ''workflow_dispatch''}"
  shows "start w shouldValidate
           = ([Log core_error (EventNotSupported (eventType w))], Stop (Exit 1))
    \<and> ending w = Exit 1
    \<and> calls (trace w) = [OctokitGetUser (githubUsername w)]
    \<and> scan_calls w = [] \<and> reports w = []"
proof -
  from assms have un: "\<not> Array_includes supportedEvents (eventType w)"
    by (simp add: supported_cases)
  let ?sv = "octokit_request w (githubUsername w) \<noteq> Resolved (Some ''User'')"
  have st: "start w b = ([Log core_error (EventNotSupported (eventType w))], Stop (Exit 1))"
    for b using un by (rule start_unsupported)
  have fin: "finally_callback w ?sv = ([Log core_error MissingLicense], Stop (Exit 1))
             \<or> finally_callback w ?sv
                = ([Log core_error (EventNotSupported (eventType w))], Stop (Exit 1))"
  proof (cases "?sv \<and> \<not> truthy (env w ''GITLEAKS_LICENSE'')")
    case True
    then show ?thesis by (simp add: finally_callback_exit)
  next
    case False
    then have "finally_callback w ?sv = start w ?sv" by (rule finally_callback_start)
    then show ?thesis by (simp add: st)
  qed
  have e: "ending w = Exit 1"
    using fin by (auto simp add: main_ending ending_of_def)
  have c: "calls (trace w) = [OctokitGetUser (githubUsername w)]"
    using fin by (auto simp add: main_trace calls_simps startup_calls get_user_calls)
  have "scan_calls w = []" "reports w = []"
    by (simp_all add: scan_calls_def reports_def c is_scan_def is_report_def)
  with st e c show ?thesis by simp
qed

text \<open>An \<open>issues\<close> event.\<close>

theorem unsupported_event_stops_run_witness:
  "ending issues_event = Exit 1
   \<and> calls (trace issues_event) = [OctokitGetUser ''octocat'']
   \<and> last (trace issues_event) = Log core_error (EventNotSupported (Some ''issues''))"
proof -
  have a: "eventType issues_event
             \<notin> {Some ''push'', Some ''pull_request'', Some ''workflow_dispatch''}"
    by (simp add: world_defs eventType_def)
  have u: "githubUsername issues_event = ''octocat''"
    by (simp add: world_defs githubUsername_def)
  have l: "last (trace issues_event) = Log core_error (EventNotSupported (Some ''issues''))"
    by code_simp
  from unsupported_event_stops_run [OF a] u l show ?thesis by simp
qed

subsection \<open>C8: the identity lookup never ends the run\<close>

text \<open>
  C8. Whatever the identity lookup gives, its callbacks only write log entries of level
  info, warning or debug and leave a value in \<open>shouldValidate\<close>; none of them ends the
  run. "Organization" keeps \<open>shouldValidate\<close> true, "User" sets it to false, and any other
  type, an absent type or a rejected request leaves it true with a warning. With
  \<open>shouldValidate\<close> true the gate demands the credential: without one the run ends there,
  with one \<open>start\<close> begins (on a supported event) by calling \<open>keygen.ValidateKey\<close>.
\<close>

theorem lookup_never_fatal:
  "snd (get_user w)
     = Value (octokit_request w (githubUsername w) \<noteq> Resolved (Some ''User''))
   \<and> list_all (\<lambda>e. e = Call (OctokitGetUser (githubUsername w))
                    \<or> (\<exists>m. e = Log core_info m \<or> e = Log core_warning m
                            \<or> e = Log core_debug m))
               (fst (get_user w))
   \<and> then_callback w (Some ''Organization'')
       = ([Log core_info (IsOrganization (githubUsername w))], Value True)
   \<and> then_callback w (Some ''User'')
       = ([Log core_info (IsIndividual (githubUsername w))], Value False)
   \<and> (t \<noteq> Some ''Organization'' \<and> t \<noteq> Some ''User'' \<longrightarrow>
        then_callback w t
          = ([Log core_warning (UnexpectedType (githubUsername w) t),
              Log core_debug (GetUserReturned t)], Value True))
   \<and> catch_callback w err
       = ([Log core_warning (GetUserFailed (githubUsername w) err)], Value True)
   \<and> (\<not> truthy (env w ''GITLEAKS_LICENSE'') \<longrightarrow>
        finally_callback w True = ([Log core_error MissingLicense], Stop (Exit 1)))
   \<and> (truthy (env w ''GITLEAKS_LICENSE'') \<longrightarrow>
        finally_callback w True = start w True)
   \<and> (Array_includes supportedEvents (eventType w) \<longrightarrow>
        (\<exists>rest. fst (start w True) = Call (KeygenValidateKey (eventJSON w)) # rest))"
proof (intro conjI impI)
  show "snd (get_user w)
     = Value (octokit_request w (githubUsername w) \<noteq> Resolved (Some ''User''))"
    by (rule get_user_value)
  show "list_all (\<lambda>e. e = Call (OctokitGetUser (githubUsername w))
                    \<or> (\<exists>m. e = Log core_info m \<or> e = Log core_warning m
                            \<or> e = Log core_debug m))
               (fst (get_user w))"
    by (simp add: get_user_def then_callback_def catch_callback_def fst_and_then snd_and_then
                  prims split: promise.splits)
  show "finally_callback w True = ([Log core_error MissingLicense], Stop (Exit 1))"
    if "\<not> truthy (env w ''GITLEAKS_LICENSE'')"
    using that by (simp add: finally_callback_exit)
  show "finally_callback w True = start w True" if "truthy (env w ''GITLEAKS_LICENSE'')"
    using that by (simp add: finally_callback_start)
  show "\<exists>rest. fst (start w True) = Call (KeygenValidateKey (eventJSON w)) # rest"
    if "Array_includes supportedEvents (eventType w)"
    using that by (simp add: start_supported fst_and_then prims split: step.splits)
qed (simp_all add: then_callback_def catch_callback_def and_then_def prims)

text \<open>
  A lookup that fails with "Not Found", in a licensed organization: a warning, then the
  license key is validated and the pull request is scanned.
\<close>

theorem lookup_never_fatal_witness:
  "snd (get_user pull_request_with_leaks) = Value True
   \<and> then_callback pull_request_with_leaks (Some ''Bot'')
       = ([Log core_warning (UnexpectedType ''octocat'' (Some ''Bot'')),
           Log core_debug (GetUserReturned (Some ''Bot''))], Value True)
   \<and> finally_callback pull_request_with_leaks True = start pull_request_with_leaks True
   \<and> finally_callback push_by_org_no_license True
       = ([Log core_error MissingLicense], Stop (Exit 1))
   \<and> (\<exists>rest. fst (start pull_request_with_leaks True)
        = Call (KeygenValidateKey (eventJSON pull_request_with_leaks)) # rest)"
proof -
  have r: "octokit_request pull_request_with_leaks (githubUsername pull_request_with_leaks)
             \<noteq> Resolved (Some ''User'')"
    by (simp add: world_defs)
  have u: "githubUsername pull_request_with_leaks = ''octocat''"
    by (simp add: world_defs githubUsername_def)
  have t: "Some ''Bot'' \<noteq> Some ''Organization'' \<and> Some ''Bot'' \<noteq> Some ''User''"
    by simp
  have lic: "truthy (env pull_request_with_leaks ''GITLEAKS_LICENSE'')"
    by (simp add: world_defs truthy_def)
  have nolic: "\<not> truthy (env push_by_org_no_license ''GITLEAKS_LICENSE'')"
    by (simp add: world_defs truthy_def)
  have sup: "Array_includes supportedEvents (eventType pull_request_with_leaks)"
    by (simp add: world_defs Array_includes_def supportedEvents_def eventType_def)
  from lookup_never_fatal [of pull_request_with_leaks "Some ''Bot''"]
    lookup_never_fatal [of push_by_org_no_license] r u t lic nolic sup
  show ?thesis by simp
qed

subsection \<open>C9: the two feature flags\<close>

lemmas js_defs = loose_eq_zero_def StringToNumber_def trim_def is_StrWhiteSpaceChar_def
  NonDecimalIntegerLiteral_def StrUnsignedDecimalLiteral_def is_digit_def digit_value_def
  ExponentPart_opt_def SignedInteger_def digits_value_def is_zero_def

lemma loose_eq_zero_examples:
  "loose_eq_zero (Some ''0'')" "loose_eq_zero (Some ''0.0'')" "loose_eq_zero (Some [])"
  "\<not> loose_eq_zero None"
  by (simp_all add: js_defs)

lemma loose_eq_string_iff: "loose_eq_string v lit = (v = Some lit)"
  by (simp add: loose_eq_string_def split: option.splits)

lemma loose_disables:
  "v \<in> {Some ''false'', Some ''0'', Some ''0.0'', Some []} \<Longrightarrow>
   loose_eq_string v ''false'' \<or> loose_eq_zero v"
  using loose_eq_zero_examples by (auto simp add: loose_eq_string_iff)

text \<open>
  C9. \<open>gitleaksEnableSummary\<close> and \<open>gitleaksEnableUploadArtifact\<close> are functions of the
  environment alone, fixed before the lookup starts. Each is false exactly when its
  variable is loosely equal to \<open>"false"\<close> or to \<open>0\<close>. The first holds for the string
  \<open>false\<close> only; the second holds for \<open>"0"\<close>, \<open>"0.0"\<close> and the empty string among others,
  and never for an unset variable. So an unset variable leaves the feature on and an
  empty one turns it off.
\<close>

theorem feature_flags_loose_equality:
  "gitleaksEnableSummary w
     = (\<not> (loose_eq_string (env w ''GITLEAKS_ENABLE_SUMMARY'') ''false''
           \<or> loose_eq_zero (env w ''GITLEAKS_ENABLE_SUMMARY'')))
   \<and> gitleaksEnableUploadArtifact w
     = (\<not> (loose_eq_string (env w ''GITLEAKS_ENABLE_UPLOAD_ARTIFACT'') ''false''
           \<or> loose_eq_zero (env w ''GITLEAKS_ENABLE_UPLOAD_ARTIFACT'')))
   \<and> loose_eq_string v ''false'' = (v = Some ''false'')
   \<and> loose_eq_zero (Some ''0'') \<and> loose_eq_zero (Some ''0.0'') \<and> loose_eq_zero (Some [])
   \<and> \<not> loose_eq_zero None
   \<and> (env w ''GITLEAKS_ENABLE_SUMMARY'' = None \<longrightarrow> gitleaksEnableSummary w)
   \<and> (env w ''GITLEAKS_ENABLE_UPLOAD_ARTIFACT'' = None \<longrightarrow> gitleaksEnableUploadArtifact w)
   \<and> (env w ''GITLEAKS_ENABLE_SUMMARY'' \<in> {Some ''false'', Some ''0'', Some ''0.0'', Some []}
        \<longrightarrow> \<not> gitleaksEnableSummary w)
   \<and> (env w ''GITLEAKS_ENABLE_UPLOAD_ARTIFACT''
          \<in> {Some ''false'', Some ''0'', Some ''0.0'', Some []}
        \<longrightarrow> \<not> gitleaksEnableUploadArtifact w)"
proof (intro conjI impI)
  show "gitleaksEnableSummary w" if "env w ''GITLEAKS_ENABLE_SUMMARY'' = None"
    using that by (simp add: gitleaksEnableSummary_def loose_eq_string_iff loose_eq_zero_examples)
  show "gitleaksEnableUploadArtifact w" if "env w ''GITLEAKS_ENABLE_UPLOAD_ARTIFACT'' = None"
    using that
    by (simp add: gitleaksEnableUploadArtifact_def loose_eq_string_iff loose_eq_zero_examples)
  show "\<not> gitleaksEnableSummary w"
    if "env w ''GITLEAKS_ENABLE_SUMMARY'' \<in> {Some ''false'', Some ''0'', Some ''0.0'', Some []}"
    using loose_disables [OF that] by (simp add: gitleaksEnableSummary_def)
  show "\<not> gitleaksEnableUploadArtifact w"
    if "env w ''GITLEAKS_ENABLE_UPLOAD_ARTIFACT''
          \<in> {Some ''false'', Some ''0'', Some ''0.0'', Some []}"
    using loose_disables [OF that] by (simp add: gitleaksEnableUploadArtifact_def)
qed (simp_all add: gitleaksEnableSummary_def gitleaksEnableUploadArtifact_def
       loose_eq_string_iff loose_eq_zero_examples)


text \<open>
  Both variables empty: both features are off. Nothing set: both are on. Other values,
  such as \<open>true\<close>, \<open>False\<close>, \<open>no\<close> or \<open>1\<close>, leave the summary on.
\<close>

theorem feature_flags_loose_equality_witness:
  "\<not> gitleaksEnableSummary push_flags_empty
   \<and> \<not> gitleaksEnableUploadArtifact push_flags_empty
   \<and> gitleaksEnableSummary push_by_user
   \<and> gitleaksEnableUploadArtifact push_by_user
   \<and> \<not> gitleaksEnableSummary push_summary_off
   \<and> list_all (\<lambda>s. gitleaksEnableSummary
                      (push_by_user\<lparr>env := [''GITLEAKS_ENABLE_SUMMARY'' \<mapsto> s]\<rparr>))
        [''true'', ''False'', ''no'', ''1'']"
proof -
  have e: "env push_flags_empty ''GITLEAKS_ENABLE_SUMMARY''
             \<in> {Some ''false'', Some ''0'', Some ''0.0'', Some []}"
    "env push_flags_empty ''GITLEAKS_ENABLE_UPLOAD_ARTIFACT''
             \<in> {Some ''false'', Some ''0'', Some ''0.0'', Some []}"
    by (simp_all add: world_defs)
  have s: "env push_summary_off ''GITLEAKS_ENABLE_SUMMARY''
             \<in> {Some ''false'', Some ''0'', Some ''0.0'', Some []}"
    by (simp add: world_defs)
  have u: "env push_by_user ''GITLEAKS_ENABLE_SUMMARY'' = None"
    "env push_by_user ''GITLEAKS_ENABLE_UPLOAD_ARTIFACT'' = None"
    by (simp_all add: world_defs)
  have o: "list_all (\<lambda>s. gitleaksEnableSummary
                      (push_by_user\<lparr>env := [''GITLEAKS_ENABLE_SUMMARY'' \<mapsto> s]\<rparr>))
        [''true'', ''False'', ''no'', ''1'']"
    by (simp add: js_defs gitleaksEnableSummary_def loose_eq_string_def)
  have 1: "\<not> gitleaksEnableSummary push_flags_empty"
    "\<not> gitleaksEnableUploadArtifact push_flags_empty"
    using feature_flags_loose_equality [of push_flags_empty None] e by blast+
  have 2: "gitleaksEnableSummary push_by_user" "gitleaksEnableUploadArtifact push_by_user"
    using feature_flags_loose_equality [of push_by_user None] u by blast+
  have 3: "\<not> gitleaksEnableSummary push_summary_off"
    using feature_flags_loose_equality [of push_summary_off None] s by blast
  from 1 2 3 o show ?thesis by simp
qed

subsection \<open>C10: push and manual runs scan alike\<close>

text \<open>
  C10. For the event types \<open>push\<close> and \<open>workflow_dispatch\<close> the controller makes the same
  call, \<open>gitleaks.Scan\<close>, with the same upload flag and the same \<open>scanInfo\<close>, and the event
  type as the only argument that differs. In any run of either kind, every call of the scan
  executor passes \<open>gitleaksEnableUploadArtifact\<close> and a \<open>scanInfo\<close> whose \<open>headRef\<close> is
  \<open>eventJSON.after\<close> and whose \<open>baseRef\<close> is \<open>eventJSON.before\<close>; and when the run passes the
  gate and the engine installs at \<open>p\<close>, that call is the only one and its \<open>gitleaksPath\<close>
  is \<open>p\<close>.
\<close>

theorem push_and_dispatch_scan_alike:
  "(eventType w = Some t \<and> (t = ''push'' \<or> t = ''workflow_dispatch'')
      \<longrightarrow> scan w info = await (GitleaksScan (gitleaksEnableUploadArtifact w) info t)
                             (gitleaks_Scan w (gitleaksEnableUploadArtifact w) info t))
   \<and> (eventType w = Some t \<and> (t = ''push'' \<or> t = ''workflow_dispatch'')
      \<longrightarrow> (\<forall>c \<in> set (scan_calls w).
             \<exists>path. c = GitleaksScan (gitleaksEnableUploadArtifact w)
                          \<lparr>headRef = after (eventJSON w), baseRef = before (eventJSON w),
                           gitleaksPath = path\<rparr> t))
   \<and> (eventType w = Some t \<and> (t = ''push'' \<or> t = ''workflow_dispatch'')
       \<and> \<not> (octokit_request w (githubUsername w) \<noteq> Resolved (Some ''User'')
              \<and> \<not> truthy (env w ''GITLEAKS_LICENSE''))
       \<and> (octokit_request w (githubUsername w) \<noteq> Resolved (Some ''User'')
              \<longrightarrow> keygen_ValidateKey w (eventJSON w) = Returns ())
       \<and> snd (gitleaksVersion w) = Value v \<and> gitleaks_Install w v = Returns p
      \<longrightarrow> scan_calls w = [GitleaksScan (gitleaksEnableUploadArtifact w)
                           \<lparr>headRef = after (eventJSON w), baseRef = before (eventJSON w),
                            gitleaksPath = p\<rparr> t])"
proof (intro conjI impI ballI)
  assume h: "eventType w = Some t \<and> (t = ''push'' \<or> t = ''workflow_dispatch'')"
  then show "scan w info = await (GitleaksScan (gitleaksEnableUploadArtifact w) info t)
                             (gitleaks_Scan w (gitleaksEnableUploadArtifact w) info t)"
    by (intro scan_commit_range) simp_all
next
  fix c
  assume h: "eventType w = Some t \<and> (t = ''push'' \<or> t = ''workflow_dispatch'')"
    and c: "c \<in> set (scan_calls w)"
  show "\<exists>path. c = GitleaksScan (gitleaksEnableUploadArtifact w)
                          \<lparr>headRef = after (eventJSON w), baseRef = before (eventJSON w),
                           gitleaksPath = path\<rparr> t"
  proof (cases w rule: run_cases)
    case (no_scan s)
    with c show ?thesis by simp
  next
    case (scan c' r pre)
    with c have "c' = c" by simp
    with scan(7) h show ?thesis by auto
  qed
next
  assume h: "eventType w = Some t \<and> (t = ''push'' \<or> t = ''workflow_dispatch'')
       \<and> \<not> (octokit_request w (githubUsername w) \<noteq> Resolved (Some ''User'')
              \<and> \<not> truthy (env w ''GITLEAKS_LICENSE''))
       \<and> (octokit_request w (githubUsername w) \<noteq> Resolved (Some ''User'')
              \<longrightarrow> keygen_ValidateKey w (eventJSON w) = Returns ())
       \<and> snd (gitleaksVersion w) = Value v \<and> gitleaks_Install w v = Returns p"
  let ?c = "GitleaksScan (gitleaksEnableUploadArtifact w)
                           \<lparr>headRef = after (eventJSON w), baseRef = before (eventJSON w),
                            gitleaksPath = p\<rparr> t"
  from h have sup: "Array_includes supportedEvents (eventType w)"
    by (auto simp add: Array_includes_def supportedEvents_def)
  from h sup have "\<exists>pre. trace w = pre @ fst (scan_and_report w p)"
    by (intro main_reaches_scan [where v = v]) simp_all
  then obtain pre where "trace w = pre @ fst (scan_and_report w p)" ..
  with sup h have mem: "?c \<in> set (scan_calls w)"
    by (intro scan_call_made(2)) simp_all
  show "scan_calls w = [?c]"
  proof (cases w rule: run_cases)
    case (no_scan s)
    with mem show ?thesis by simp
  next
    case (scan c' r pre')
    with mem show ?thesis by simp
  qed
qed

text \<open>
  A push and a manual run that differ in the event name only: one scan call each, with the
  same flag and the same \<open>scanInfo\<close>.
\<close>

theorem push_and_dispatch_scan_alike_witness:
  "scan_calls push_by_user
     = [GitleaksScan True
          \<lparr>headRef = Some ''7fd1a60'', baseRef = Some ''553c207'',
           gitleaksPath = ''/tmp/gitleaks-8.18.2/gitleaks''\<rparr> ''push'']
   \<and> scan_calls dispatch_by_user
     = [GitleaksScan True
          \<lparr>headRef = Some ''7fd1a60'', baseRef = Some ''553c207'',
           gitleaksPath = ''/tmp/gitleaks-8.18.2/gitleaks''\<rparr> ''workflow_dispatch'']"
proof -
  have e: "eventType push_by_user = Some ''push''"
    "eventType dispatch_by_user = Some ''workflow_dispatch''"
    by (simp_all add: world_defs eventType_def)
  have g: "\<not> (octokit_request push_by_user (githubUsername push_by_user)
                 \<noteq> Resolved (Some ''User'')
               \<and> \<not> truthy (env push_by_user ''GITLEAKS_LICENSE''))"
    "\<not> (octokit_request dispatch_by_user (githubUsername dispatch_by_user)
                 \<noteq> Resolved (Some ''User'')
               \<and> \<not> truthy (env dispatch_by_user ''GITLEAKS_LICENSE''))"
    by (simp_all add: world_defs)
  have k: "octokit_request push_by_user (githubUsername push_by_user)
                 \<noteq> Resolved (Some ''User'')
            \<longrightarrow> keygen_ValidateKey push_by_user (eventJSON push_by_user) = Returns ()"
    "octokit_request dispatch_by_user (githubUsername dispatch_by_user)
                 \<noteq> Resolved (Some ''User'')
            \<longrightarrow> keygen_ValidateKey dispatch_by_user (eventJSON dispatch_by_user) = Returns ()"
    by (simp_all add: world_defs)
  have v: "snd (gitleaksVersion push_by_user) = Value ''8.18.2''"
    "snd (gitleaksVersion dispatch_by_user) = Value ''8.18.2''"
    by (simp_all add: world_defs gitleaksVersion_def prims)
  have i: "gitleaks_Install push_by_user ''8.18.2'' = Returns ''/tmp/gitleaks-8.18.2/gitleaks''"
    "gitleaks_Install dispatch_by_user ''8.18.2'' = Returns ''/tmp/gitleaks-8.18.2/gitleaks''"
    by (simp_all add: world_defs)
  have f: "gitleaksEnableUploadArtifact push_by_user"
    "gitleaksEnableUploadArtifact dispatch_by_user"
    by (simp_all add: world_defs gitleaksEnableUploadArtifact_def loose_eq_string_def
                      loose_eq_zero_def)
  have j: "after (eventJSON push_by_user) = Some ''7fd1a60''"
    "before (eventJSON push_by_user) = Some ''553c207''"
    "after (eventJSON dispatch_by_user) = Some ''7fd1a60''"
    "before (eventJSON dispatch_by_user) = Some ''553c207''"
    by (simp_all add: world_defs)
  have a: "scan_calls push_by_user
     = [GitleaksScan True
          \<lparr>headRef = Some ''7fd1a60'', baseRef = Some ''553c207'',
           gitleaksPath = ''/tmp/gitleaks-8.18.2/gitleaks''\<rparr> ''push'']"
    using push_and_dispatch_scan_alike
            [of push_by_user "''push''" _ "''8.18.2''" "''/tmp/gitleaks-8.18.2/gitleaks''"]
          e(1) g(1) k(1) v(1) i(1) f(1) j(1,2)
    by simp
  have b: "scan_calls dispatch_by_user
     = [GitleaksScan True
          \<lparr>headRef = Some ''7fd1a60'', baseRef = Some ''553c207'',
           gitleaksPath = ''/tmp/gitleaks-8.18.2/gitleaks''\<rparr> ''workflow_dispatch'']"
    using push_and_dispatch_scan_alike
            [of dispatch_by_user "''workflow_dispatch''" _ "''8.18.2''"
                "''/tmp/gitleaks-8.18.2/gitleaks''"]
          e(2) g(2) k(2) v(2) i(2) f(2) j(3,4)
    by simp
  from a b show ?thesis by simp
qed

end
